theory Spec2Isabelle
  imports Main "HOL-Library.Sublist" "HOL-Library.Char_ord" "HOL-Library.List_Lexorder"
    "HOL-Library.Multiset"
begin

section \<open>Text and numbers as JavaScript and SQLite treat them\<close>

text \<open>
  Strings are byte strings. SQLite compares TEXT with the BINARY collation (bytewise, a
  proper prefix first), which is the lexicographic order on \<open>char list\<close> used here for
  \<open>MIN\<close> and \<open>MAX\<close>. A nullable column or a possibly-\<open>null\<close> JavaScript value is an
  \<open>option\<close>.
\<close>

definition startsWith :: "string \<Rightarrow> string \<Rightarrow> bool" where
  "startsWith s p = prefix p s"

text \<open>\<open>s.split(c)\<close> for a one-character separator: never the empty array.\<close>

fun split_on :: "char \<Rightarrow> string \<Rightarrow> string list" where
  "split_on c [] = [[]]"
| "split_on c (x # xs) =
     (if x = c then [] # split_on c xs
      else (case split_on c xs of [] \<Rightarrow> [[x]] | w # ws \<Rightarrow> (x # w) # ws))"

text \<open>A truthy string: neither \<open>null\<close>/\<open>undefined\<close> nor the empty string.\<close>

fun truthy :: "string option \<Rightarrow> bool" where
  "truthy None = False"
| "truthy (Some s) = (s \<noteq> [])"

text \<open>Decimal rendering of an integer, as a template literal and SQLite's TEXT affinity do.\<close>

definition digit_char :: "nat \<Rightarrow> char" where
  "digit_char n = ''0123456789'' ! n"

fun show_nat :: "nat \<Rightarrow> string" where
  "show_nat n = (if n < 10 then [digit_char n] else show_nat (n div 10) @ [digit_char (n mod 10)])"

declare show_nat.simps [simp del]

definition show_int :: "int \<Rightarrow> string" where
  "show_int i = (if i < 0 then CHR ''-'' # show_nat (nat (- i)) else show_nat (nat i))"

text \<open>
  A JavaScript number is a double. The numbers of this program are whole numbers, \<open>NaN\<close>
  and, out of \<open>parseInt\<close>, the infinities. A double holds every integer up to \<open>2^53\<close> in
  magnitude exactly; what the runtime makes of a larger one (a rounded value, or an
  infinity) is its own choice and enters as the parameter \<open>beyond\<close>.
\<close>

datatype jsnum = Num int | NaN | Infinity | MinusInfinity

definition to_number :: "(int \<Rightarrow> jsnum) \<Rightarrow> int \<Rightarrow> jsnum" where
  "to_number beyond n = (if \<bar>n\<bar> \<le> 2 ^ 53 then Num n else beyond n)"

text \<open>
  \<open>a % b\<close> for a literal \<open>b\<close>: exact on a finite \<open>a\<close>, with the sign of \<open>a\<close>, and \<open>NaN\<close> on
  anything else. \<open>a + b\<close> for a literal \<open>a\<close> and a remainder \<open>b\<close>. A comparison with \<open>NaN\<close> is
  false.
\<close>

definition js_rem :: "jsnum \<Rightarrow> int \<Rightarrow> jsnum" where
  "js_rem a b = (case a of Num x \<Rightarrow> Num (sgn x * (\<bar>x\<bar> mod \<bar>b\<bar>)) | _ \<Rightarrow> NaN)"

definition js_add :: "int \<Rightarrow> jsnum \<Rightarrow> jsnum" where
  "js_add a b = (case b of Num y \<Rightarrow> Num (a + y) | other \<Rightarrow> other)"

definition js_gt :: "jsnum \<Rightarrow> int \<Rightarrow> bool" where
  "js_gt a b = (case a of Num x \<Rightarrow> x > b | Infinity \<Rightarrow> True | _ \<Rightarrow> False)"

definition js_ge :: "jsnum \<Rightarrow> int \<Rightarrow> bool" where
  "js_ge a b = (case a of Num x \<Rightarrow> x \<ge> b | Infinity \<Rightarrow> True | _ \<Rightarrow> False)"

text \<open>
  \<open>parseInt(s)\<close> with no radix: leading white space is skipped, then an optional sign, then
  an optional \<open>0x\<close>/\<open>0X\<close> (radix 16, otherwise 10), then the longest run of digits of that
  radix; no digit at all gives \<open>NaN\<close>, otherwise the number of the signed value.
\<close>

text \<open>White space is the ASCII white space; strings are taken to hold no other.\<close>

definition is_space :: "char \<Rightarrow> bool" where
  "is_space c = (c \<in> set [CHR '' '', CHR 0x09, CHR 0x0A, CHR 0x0B, CHR 0x0C, CHR 0x0D])"

definition is_digit :: "char \<Rightarrow> bool" where
  "is_digit c = (c \<in> set ''0123456789'')"

definition digit_of :: "char \<Rightarrow> nat" where
  "digit_of c =
     (let n = (of_char c :: nat) in
      if 48 \<le> n \<and> n \<le> 57 then n - 48
      else if 97 \<le> n \<and> n \<le> 122 then n - 87
      else if 65 \<le> n \<and> n \<le> 90 then n - 55
      else 36)"

definition digits_value :: "nat \<Rightarrow> string \<Rightarrow> nat option" where
  "digits_value radix s =
     (let ds = takeWhile (\<lambda>c. digit_of c < radix) s in
      if ds = [] then None
      else Some (foldl (\<lambda>acc c. acc * radix + digit_of c) 0 ds))"

definition parse_unsigned :: "string \<Rightarrow> nat option" where
  "parse_unsigned s =
     (if startsWith s ''0x'' \<or> startsWith s ''0X'' then digits_value 16 (drop 2 s)
      else digits_value 10 s)"

definition signed :: "(int \<Rightarrow> jsnum) \<Rightarrow> int \<Rightarrow> nat option \<Rightarrow> jsnum" where
  "signed beyond sign v = (case v of None \<Rightarrow> NaN | Some n \<Rightarrow> to_number beyond (sign * int n))"

definition parseInt :: "(int \<Rightarrow> jsnum) \<Rightarrow> string \<Rightarrow> jsnum" where
  "parseInt beyond str =
     (case dropWhile is_space str of
        [] \<Rightarrow> NaN
      | c # cs \<Rightarrow>
          if c = CHR ''-'' then signed beyond (- 1) (parse_unsigned cs)
          else if c = CHR ''+'' then signed beyond 1 (parse_unsigned cs)
          else signed beyond 1 (parse_unsigned (c # cs)))"

section \<open>The reputation cache (src/enrichment/abuseipdb.js)\<close>

text \<open>
  JSON values, for \<open>JSON.stringify\<close> and for the records ingestion receives. An object is
  the list of its own properties; a number is an integer (of a number the program asks
  only whether it is zero). The serializer and the reading of large integers are
  built-ins of the runtime and enter the model as the fields of the parameter \<open>rt\<close>; \<open>NaN\<close>
  and the infinities serialize as \<open>null\<close>.
\<close>

datatype json =
    JNull
  | JBool bool
  | JNum int
  | JStr string
  | JArr "json list"
  | JObj "(string \<times> json) list"

fun jnum :: "jsnum \<Rightarrow> json" where
  "jnum (Num n) = JNum n"
| "jnum other = JNull"

record runtime =
  JSON_stringify :: "json \<Rightarrow> string"
  to_double :: "int \<Rightarrow> jsnum"

text \<open>
  The object a fetch produces and the row of table \<open>ip_reputation\<close> that caches it have the
  same members with different values: the object holds JavaScript numbers and a boolean,
  the row holds what the statements wrote, a number or NULL for the two counts (a \<open>NaN\<close>
  is stored as NULL), 1 or 0 for \<open>is_whitelisted\<close>, and the time of the write.
\<close>

record ('n, 'w) reputation =
  ip_address :: string
  abuse_confidence_score :: 'n
  country_code :: "string option"
  usage_type :: "string option"
  is_whitelisted :: 'w
  total_reports :: 'n
  raw_data :: string

type_synonym fetched = "(jsnum, bool) reputation"

text \<open>
  Modelled from the spec: the table \<open>ip_reputation\<close>, whose CREATE statement is not among
  the sources. Its columns are those of the ReputationRecord of the spec, under the names
  the prepared statements use; \<open>last_checked\<close> is always written as \<open>datetime('now')\<close> and
  is kept here in seconds.
\<close>

record ('n, 'w) reputation_row = "('n, 'w) reputation" +
  last_checked :: int

type_synonym cached = "(jsnum option, int) reputation_row"

datatype event = CacheRead string | NetworkCall string | CacheWrite string | Sleep nat

definition CACHE_TTL_DAYS :: int where
  "CACHE_TTL_DAYS = 7"

definition ttl_seconds :: int where
  "ttl_seconds = CACHE_TTL_DAYS * 86400"

text \<open>\<open>datetime(last_checked) > datetime('now', '-7 days')\<close>\<close>

definition fresh :: "int \<Rightarrow> cached \<Rightarrow> bool" where
  "fresh now r = (last_checked r > now - ttl_seconds)"

text \<open>The prepared statement \<open>getIPReputation\<close>; \<open>.get\<close> yields the first matching row.\<close>

definition getIPReputation :: "int \<Rightarrow> cached list \<Rightarrow> string \<Rightarrow> cached option" where
  "getIPReputation now tbl ip = find (\<lambda>r. ip_address r = ip \<and> fresh now r) tbl"

text \<open>
  \<open>generateStubReputation\<close>: the fallback generator.
\<close>

definition isPrivate :: "string \<Rightarrow> bool" where
  "isPrivate ipAddress =
     (startsWith ipAddress ''10.'' \<or>
      startsWith ipAddress ''192.168.'' \<or>
      startsWith ipAddress ''172.16.'' \<or>
      startsWith ipAddress ''172.17.'' \<or>
      startsWith ipAddress ''172.18.'' \<or>
      startsWith ipAddress ''172.19.'' \<or>
      startsWith ipAddress ''172.2'' \<or>
      startsWith ipAddress ''172.30.'' \<or>
      startsWith ipAddress ''172.31.'')"

text \<open>\<open>parseInt(octets[3] || 0)\<close>: a missing or empty fourth piece reads as 0.\<close>

definition lastOctet :: "runtime \<Rightarrow> string \<Rightarrow> jsnum" where
  "lastOctet rt ipAddress =
     (let octets = split_on CHR ''.'' ipAddress in
      if 3 < length octets \<and> octets ! 3 \<noteq> [] then parseInt (to_double rt) (octets ! 3)
      else parseInt (to_double rt) ''0'')"

definition abuseScore :: "runtime \<Rightarrow> string \<Rightarrow> jsnum" where
  "abuseScore rt ipAddress =
     (if \<not> isPrivate ipAddress then
        (if js_gt (lastOctet rt ipAddress) 200 then js_add 75 (js_rem (lastOctet rt ipAddress) 25)
         else if js_gt (lastOctet rt ipAddress) 100 then js_add 25 (js_rem (lastOctet rt ipAddress) 25)
         else js_rem (lastOctet rt ipAddress) 15)
      else Num 0)"

definition totalReports :: "runtime \<Rightarrow> string \<Rightarrow> jsnum" where
  "totalReports rt ipAddress =
     (if \<not> isPrivate ipAddress then
        (if js_gt (lastOctet rt ipAddress) 200 then js_add 50 (js_rem (lastOctet rt ipAddress) 50)
         else if js_gt (lastOctet rt ipAddress) 100 then js_add 10 (js_rem (lastOctet rt ipAddress) 20)
         else js_rem (lastOctet rt ipAddress) 5)
      else Num 0)"

definition generateStubReputation :: "runtime \<Rightarrow> string \<Rightarrow> fetched" where
  "generateStubReputation rt ipAddress =
     \<lparr> ip_address = ipAddress,
       abuse_confidence_score = abuseScore rt ipAddress,
       country_code = (if isPrivate ipAddress then None else Some ''US''),
       usage_type =
         (if isPrivate ipAddress then Some ''Data Center/Web Hosting/Transit''
          else Some ''Residential''),
       is_whitelisted = isPrivate ipAddress,
       total_reports = totalReports rt ipAddress,
       raw_data = JSON_stringify rt (JObj
         [(''ipAddress'', JStr ipAddress),
          (''abuseConfidenceScore'', jnum (abuseScore rt ipAddress)),
          (''totalReports'', jnum (totalReports rt ipAddress)),
          (''countryCode'', if isPrivate ipAddress then JNull else JStr ''US''),
          (''usageType'',
             if isPrivate ipAddress then JStr ''Data Center/Web Hosting/Transit''
             else JStr ''Residential''),
          (''isWhitelisted'', JBool (isPrivate ipAddress)),
          (''stub'', JBool True),
          (''note'', JStr ''Generated stub data - configure ABUSEIPDB_API_KEY for real data'')]) \<rparr>"

text \<open>
  The provider. One HTTP exchange ends in a rejected \<open>fetch\<close> or in a response with a
  status code and a body; a body is not JSON, or JSON whose \<open>data\<close> member is an object
  (\<open>Some\<close>) or missing/falsy (\<open>None\<close>). Of the \<open>data\<close> object the model keeps the members
  the code reads, typed as the provider documents them, and its serialization.
\<close>

record abuse_data =
  abuseConfidenceScore :: "int option"
  countryCode :: "string option"
  usageType :: "string option"
  isWhitelisted :: "bool option"
  totalReports_member :: "int option"
  data_text :: string

datatype body = NotJson | Json "abuse_data option"

datatype reply = Rejected | Response nat body

datatype js_error = FetchFailed | ApiError nat | SyntaxError | TypeError | RangeError | ConstraintError

definition response_ok :: "nat \<Rightarrow> bool" where
  "response_ok code = (200 \<le> code \<and> code \<le> 299)"

text \<open>\<open>x || 0\<close>, \<open>x || null\<close> and \<open>x || false\<close> on the members of \<open>data\<close>.\<close>

definition or_zero :: "int option \<Rightarrow> jsnum" where
  "or_zero x = (case x of None \<Rightarrow> Num 0 | Some n \<Rightarrow> Num n)"

definition or_null :: "string option \<Rightarrow> string option" where
  "or_null x = (if truthy x then x else None)"

definition or_false :: "bool option \<Rightarrow> bool" where
  "or_false x = (case x of None \<Rightarrow> False | Some b \<Rightarrow> b)"

text \<open>The body of the \<open>try\<close> block of \<open>fetchFromAbuseIPDB\<close>, an exception as \<open>Inl\<close>.\<close>

definition fetch_attempt :: "runtime \<Rightarrow> string \<Rightarrow> reply \<Rightarrow> js_error + fetched" where
  "fetch_attempt rt ipAddress r =
     (case r of
        Rejected \<Rightarrow> Inl FetchFailed
      | Response code b \<Rightarrow>
          if \<not> response_ok code then
            (if code = 429 then Inr (generateStubReputation rt ipAddress)
             else Inl (ApiError code))
          else
            (case b of
               NotJson \<Rightarrow> Inl SyntaxError
             | Json None \<Rightarrow> Inr (generateStubReputation rt ipAddress)
             | Json (Some d) \<Rightarrow>
                 Inr \<lparr> ip_address = ipAddress,
                       abuse_confidence_score = or_zero (abuseConfidenceScore d),
                       country_code = or_null (countryCode d),
                       usage_type = or_null (usageType d),
                       is_whitelisted = or_false (isWhitelisted d),
                       total_reports = or_zero (totalReports_member d),
                       raw_data = data_text d \<rparr>))"

text \<open>
  The state the operations run on: the three tables, the AUTOINCREMENT counters of
  \<open>logs\<close> and \<open>alerts\<close>, and the trace of the effects the claims speak of (statements on
  the cache table, requests sent to the provider, pauses in milliseconds).
\<close>

record log =
  log_id :: nat
  timestamp :: string
  event_type :: "string option"
  username :: "string option"
  source_ip :: "string option"
  destination_ip :: "string option"
  status :: "string option"
  message :: "string option"
  log_raw_data :: "string option"
  created_at :: int

record alert =
  alert_id :: nat
  alert_type :: string
  severity :: string
  title :: string
  description :: string
  affected_entity :: "string option"
  alert_source_ip :: "string option"
  event_count :: nat
  first_seen :: string
  last_seen :: string
  alert_status :: string
  ai_summary :: "string option"
  alert_created_at :: int

record world =
  logs :: "log list"
  log_seq :: nat
  alerts :: "alert list"
  alert_seq :: nat
  ip_reputation :: "cached list"
  trace :: "event list"

text \<open>The state of a fresh installation.\<close>

definition empty_world :: world where
  "empty_world = \<lparr> logs = [], log_seq = 0, alerts = [], alert_seq = 0, ip_reputation = [], trace = [] \<rparr>"

definition emit :: "event \<Rightarrow> world \<Rightarrow> world" where
  "emit e w = w\<lparr>trace := trace w @ [e]\<rparr>"

text \<open>
  \<open>fetchFromAbuseIPDB\<close>: without a credential the stub, with no request; otherwise one
  request, and the stub again for whatever the \<open>try\<close> block threw.
\<close>

definition fetchFromAbuseIPDB ::
  "string option \<Rightarrow> (string \<Rightarrow> reply) \<Rightarrow> runtime \<Rightarrow> string \<Rightarrow> world \<Rightarrow> fetched \<times> world" where
  "fetchFromAbuseIPDB api_key provider rt ipAddress w =
     (if \<not> truthy api_key then (generateStubReputation rt ipAddress, w)
      else
        (case fetch_attempt rt ipAddress (provider ipAddress) of
           Inr rep \<Rightarrow> (rep, emit (NetworkCall ipAddress) w)
         | Inl err \<Rightarrow> (generateStubReputation rt ipAddress, emit (NetworkCall ipAddress) w)))"

text \<open>
  The two prepared statements that write the cache. A number lands in its column as it
  is, \<open>NaN\<close> as NULL; the boolean is passed as \<open>is_whitelisted ? 1 : 0\<close>.
\<close>

definition column :: "jsnum \<Rightarrow> jsnum option" where
  "column x = (if x = NaN then None else Some x)"

definition as_row :: "int \<Rightarrow> string \<Rightarrow> fetched \<Rightarrow> cached" where
  "as_row now ip rep =
     \<lparr> ip_address = ip,
       abuse_confidence_score = column (abuse_confidence_score rep),
       country_code = country_code rep,
       usage_type = usage_type rep,
       is_whitelisted = (if is_whitelisted rep then 1 else 0),
       total_reports = column (total_reports rep),
       raw_data = raw_data rep,
       last_checked = now \<rparr>"

definition updateIPReputation :: "int \<Rightarrow> string \<Rightarrow> fetched \<Rightarrow> cached list \<Rightarrow> cached list" where
  "updateIPReputation now ip rep tbl =
     map (\<lambda>r. if ip_address r = ip then as_row now ip rep else r) tbl"

definition insertIPReputation :: "int \<Rightarrow> string \<Rightarrow> fetched \<Rightarrow> cached list \<Rightarrow> cached list" where
  "insertIPReputation now ip rep tbl = tbl @ [as_row now ip rep]"

text \<open>
  \<open>getIPReputationWithCache\<close> returns \<open>null\<close>, the cached row itself, or the object just
  fetched (which has no \<open>last_checked\<close>). The members the callers read, as the JavaScript
  values they are: a number or \<open>null\<close>, and the truth value of \<open>is_whitelisted\<close>.
\<close>

datatype lookup_result = Cached cached | Fetched fetched

fun score_of :: "lookup_result \<Rightarrow> jsnum option" where
  "score_of (Cached r) = abuse_confidence_score r"
| "score_of (Fetched rep) = Some (abuse_confidence_score rep)"

fun reports_of :: "lookup_result \<Rightarrow> jsnum option" where
  "reports_of (Cached r) = total_reports r"
| "reports_of (Fetched rep) = Some (total_reports rep)"

fun country_of :: "lookup_result \<Rightarrow> string option" where
  "country_of (Cached r) = country_code r"
| "country_of (Fetched rep) = country_code rep"

fun usage_of :: "lookup_result \<Rightarrow> string option" where
  "usage_of (Cached r) = usage_type r"
| "usage_of (Fetched rep) = usage_type rep"

fun whitelisted :: "lookup_result \<Rightarrow> bool" where
  "whitelisted (Cached r) = (is_whitelisted r \<noteq> 0)"
| "whitelisted (Fetched rep) = is_whitelisted rep"

text \<open>
  The upsert after a fetch: a SELECT by address, then UPDATE or INSERT. The source
  catches and logs a failure of these statements; the store is taken to work, so the
  model has no such branch. One lookup runs at one reading of the clock.
\<close>

definition store_in_cache :: "int \<Rightarrow> string \<Rightarrow> fetched \<Rightarrow> world \<Rightarrow> world" where
  "store_in_cache now ip rep w =
     (let w1 = emit (CacheRead ip) w in
      if \<exists>r \<in> set (ip_reputation w1). ip_address r = ip
      then emit (CacheWrite ip) (w1\<lparr>ip_reputation := updateIPReputation now ip rep (ip_reputation w1)\<rparr>)
      else emit (CacheWrite ip) (w1\<lparr>ip_reputation := insertIPReputation now ip rep (ip_reputation w1)\<rparr>))"

definition getIPReputationWithCache ::
  "string option \<Rightarrow> (string \<Rightarrow> reply) \<Rightarrow> runtime \<Rightarrow> int \<Rightarrow> string option \<Rightarrow> world
     \<Rightarrow> lookup_result option \<times> world" where
  "getIPReputationWithCache api_key provider rt now ipAddress w =
     (case ipAddress of
        None \<Rightarrow> (None, w)
      | Some ip \<Rightarrow>
          if ip = [] then (None, w)
          else
            (let w1 = emit (CacheRead ip) w in
             case getIPReputation now (ip_reputation w1) ip of
               Some cached \<Rightarrow> (Some (Cached cached), w1)
             | None \<Rightarrow>
                 (let (rep, w2) = fetchFromAbuseIPDB api_key provider rt ip w1
                  in (Some (Fetched rep), store_in_cache now ip rep w2))))"

text \<open>
  \<open>enrichIPsBatch\<close>. \<open>[...new Set(xs)]\<close> keeps the first occurrence of each value, in
  order. The result object is kept as the list of the assignments \<open>results[ip] = ...\<close>, in
  the order they are made. The lookups are awaited one after the other, with a pause in
  between, so each has its own reading of the clock: \<open>reading ip\<close> for the lookup of \<open>ip\<close>.
\<close>

definition unique :: "'a list \<Rightarrow> 'a list" where
  "unique xs = fold (\<lambda>x acc. if x \<in> set acc then acc else acc @ [x]) xs []"

text \<open>\<open>ipAddresses.filter(ip => ip)\<close>\<close>

fun truthy_only :: "string option list \<Rightarrow> string list" where
  "truthy_only [] = []"
| "truthy_only (None # xs) = truthy_only xs"
| "truthy_only (Some ip # xs) = (if ip = [] then truthy_only xs else ip # truthy_only xs)"

definition uniqueIPs :: "string option list \<Rightarrow> string list" where
  "uniqueIPs ipAddresses = unique (truthy_only ipAddresses)"

text \<open>The pauses and the requests of a trace.\<close>

fun is_pause :: "event \<Rightarrow> bool" where
  "is_pause (Sleep ms) = True"
| "is_pause e = False"

fun is_request :: "event \<Rightarrow> bool" where
  "is_request (NetworkCall ip) = True"
| "is_request e = False"

fun enrich_loop ::
  "string option \<Rightarrow> (string \<Rightarrow> reply) \<Rightarrow> runtime \<Rightarrow> (string \<Rightarrow> int) \<Rightarrow> string list
     \<Rightarrow> (string \<times> lookup_result option) list \<Rightarrow> world
     \<Rightarrow> (string \<times> lookup_result option) list \<times> world" where
  "enrich_loop api_key provider rt reading [] results w = (results, w)"
| "enrich_loop api_key provider rt reading (ip # ips) results w =
     (let (r, w1) = getIPReputationWithCache api_key provider rt (reading ip) (Some ip) w;
          w2 = (if truthy api_key then emit (Sleep 250) w1 else w1)
      in enrich_loop api_key provider rt reading ips (results @ [(ip, r)]) w2)"

definition enrichIPsBatch ::
  "string option \<Rightarrow> (string \<Rightarrow> reply) \<Rightarrow> runtime \<Rightarrow> (string \<Rightarrow> int) \<Rightarrow> string option list \<Rightarrow> world
     \<Rightarrow> (string \<times> lookup_result option) list \<times> world" where
  "enrichIPsBatch api_key provider rt reading ipAddresses w =
     enrich_loop api_key provider rt reading (uniqueIPs ipAddresses) [] w"

text \<open>
  The effects one lookup of a truthy address leaves in the trace, by the way it was
  resolved; \<open>keyed\<close> says whether a credential is configured.
\<close>

fun lookup_events :: "bool \<Rightarrow> string \<Rightarrow> lookup_result option \<Rightarrow> event list" where
  "lookup_events keyed ip None = []"
| "lookup_events keyed ip (Some (Cached r)) = [CacheRead ip]"
| "lookup_events keyed ip (Some (Fetched rep)) =
     CacheRead ip # (if keyed then [NetworkCall ip] else []) @ [CacheRead ip, CacheWrite ip]"

text \<open>
  \<open>score >= n\<close> on a member that is a number or \<open>null\<close>; \<open>null\<close> compares as 0.
\<close>

definition at_least :: "jsnum option \<Rightarrow> int \<Rightarrow> bool" where
  "at_least score n = (case score of None \<Rightarrow> 0 \<ge> n | Some x \<Rightarrow> js_ge x n)"

definition getRiskLevel :: "jsnum option \<Rightarrow> string" where
  "getRiskLevel score =
     (if at_least score 75 then ''critical''
      else if at_least score 50 then ''high''
      else if at_least score 25 then ''medium''
      else ''low'')"

text \<open>
  \<open>clearStaleCache\<close>: the DELETE keeps the rows that fail its WHERE clause,
  \<open>datetime(last_checked) <= datetime('now', '-7 days')\<close>, and reports the number of rows
  it removed.
\<close>

definition stale :: "int \<Rightarrow> cached \<Rightarrow> bool" where
  "stale now r = (last_checked r \<le> now - ttl_seconds)"

definition clearStaleCache :: "int \<Rightarrow> world \<Rightarrow> nat \<times> world" where
  "clearStaleCache now w =
     (length (filter (stale now) (ip_reputation w)),
      w\<lparr>ip_reputation := filter (\<lambda>r. \<not> stale now r) (ip_reputation w)\<rparr>)"

section \<open>The detection rules (src/detection/rules.js, the second half of aiAnalyst.js)\<close>

text \<open>
  SQLite's \<open>LIKE\<close> folds the case of ASCII letters only. The patterns of this program are
  \<open>%w%\<close> and \<open>w%\<close> for a \<open>w\<close> without wildcard; a NULL column matches nothing.
\<close>

definition lower_ascii :: "char \<Rightarrow> char" where
  "lower_ascii c =
     (case map_of (zip ''ABCDEFGHIJKLMNOPQRSTUVWXYZ'' ''abcdefghijklmnopqrstuvwxyz'') c of
        None \<Rightarrow> c
      | Some l \<Rightarrow> l)"

fun contains :: "string \<Rightarrow> string \<Rightarrow> bool" where
  "contains p [] = (p = [])"
| "contains p (x # xs) = (prefix p (x # xs) \<or> contains p xs)"

definition like_infix :: "string \<Rightarrow> string option \<Rightarrow> bool" where
  "like_infix w col =
     (case col of None \<Rightarrow> False
      | Some s \<Rightarrow> contains (map lower_ascii w) (map lower_ascii s))"

definition like_prefix :: "string \<Rightarrow> string option \<Rightarrow> bool" where
  "like_prefix w col =
     (case col of None \<Rightarrow> False
      | Some s \<Rightarrow> prefix (map lower_ascii w) (map lower_ascii s))"

text \<open>
  SQLite's date functions are the engine's. Its parser of time strings is the parameter
  \<open>T\<close>: the seconds since 1970-01-01 00:00:00 UTC that the string denotes, \<open>None\<close> where
  the engine returns NULL. \<open>now\<close> is the clock in the same unit; a rule that runs its
  statements back to back runs at one reading of the clock.
  \<open>datetime(timestamp) > datetime('now', '-n seconds')\<close>:
\<close>

definition newer_than :: "(string \<Rightarrow> int option) \<Rightarrow> int \<Rightarrow> int \<Rightarrow> log \<Rightarrow> bool" where
  "newer_than T now n l = (case T (timestamp l) of None \<Rightarrow> False | Some t \<Rightarrow> t > now - n)"

text \<open>\<open>strftime('%H', ...)\<close> and \<open>strftime('%w', ...)\<close> (0 is Sunday) of a parsed time.\<close>

definition hour_of :: "int \<Rightarrow> int" where
  "hour_of t = (t mod 86400) div 3600"

definition weekday_of :: "int \<Rightarrow> int" where
  "weekday_of t = (t div 86400 + 4) mod 7"

text \<open>
  \<open>GROUP BY\<close> a nullable text column whose NULLs the WHERE clause has removed: one group
  per distinct value. SQL leaves the order of the groups, and of the rows of a
  \<open>SELECT DISTINCT\<close>, to the engine (which follows an index on the column when its plan
  uses one): the parameter \<open>arrange\<close> is the order the engine gives to the values it is
  handed in the order of their first appearance. \<open>MIN\<close> and \<open>MAX\<close> range over a group,
  which is never empty.
\<close>

definition group_keys ::
  "(string list \<Rightarrow> string list) \<Rightarrow> (log \<Rightarrow> string option) \<Rightarrow> log list \<Rightarrow> string list" where
  "group_keys arrange key rows = arrange (unique (List.map_filter key rows))"

definition group_of :: "(log \<Rightarrow> string option) \<Rightarrow> log list \<Rightarrow> string \<Rightarrow> log list" where
  "group_of key rows k = filter (\<lambda>l. key l = Some k) rows"

definition MIN_timestamp :: "log list \<Rightarrow> string" where
  "MIN_timestamp rows = Min (set (map timestamp rows))"

definition MAX_timestamp :: "log list \<Rightarrow> string" where
  "MAX_timestamp rows = Max (set (map timestamp rows))"

text \<open>
  The prepared statement \<open>insertAlert\<close>: the new row takes the next AUTOINCREMENT id, the
  defaults \<open>status = 'open'\<close> and \<open>created_at = CURRENT_TIMESTAMP\<close>; \<open>run\<close> returns the id as
  \<open>lastInsertRowid\<close>.
\<close>

definition insertAlert ::
  "int \<Rightarrow> string \<Rightarrow> string \<Rightarrow> string \<Rightarrow> string \<Rightarrow> string option \<Rightarrow> string option \<Rightarrow> nat
     \<Rightarrow> string \<Rightarrow> string \<Rightarrow> string option \<Rightarrow> world \<Rightarrow> nat \<times> world" where
  "insertAlert now a_type sev ttl descr entity ip cnt first_s last_s summary w =
     (let i = alert_seq w + 1 in
      (i, w\<lparr>alerts := alerts w @
              [\<lparr> alert_id = i, alert_type = a_type, severity = sev, title = ttl,
                 description = descr, affected_entity = entity, alert_source_ip = ip,
                 event_count = cnt, first_seen = first_s, last_seen = last_s,
                 alert_status = ''open'', ai_summary = summary, alert_created_at = now \<rparr>],
            alert_seq := i\<rparr>))"

text \<open>An element of a rule's result array: \<open>{ id, type, ...result }\<close>.\<close>

record 'r detected =
  detected_id :: nat
  detected_type :: string
  result :: 'r

subsection \<open>detectBruteForce\<close>

definition failed_status :: "string option \<Rightarrow> bool" where
  "failed_status s = (like_infix ''fail'' s \<or> like_infix ''denied'' s \<or> like_infix ''invalid'' s)"

record ip_result =
  ip_source_ip :: string
  ip_attempt_count :: nat
  ip_first_attempt :: string
  ip_last_attempt :: string

record user_result =
  user_username :: string
  user_source_ip :: "string option"
  user_attempt_count :: nat
  user_first_attempt :: string
  user_last_attempt :: string

definition ipQuery ::
  "(string \<Rightarrow> int option) \<Rightarrow> (string list \<Rightarrow> string list) \<Rightarrow> int \<Rightarrow> int \<Rightarrow> log list \<Rightarrow> nat
     \<Rightarrow> ip_result list" where
  "ipQuery T arrange now timeWindow tbl threshold =
     (let rows = filter (\<lambda>l. failed_status (status l) \<and> source_ip l \<noteq> None
                             \<and> newer_than T now timeWindow l) tbl
      in map (\<lambda>k. \<lparr> ip_source_ip = k,
                     ip_attempt_count = length (group_of source_ip rows k),
                     ip_first_attempt = MIN_timestamp (group_of source_ip rows k),
                     ip_last_attempt = MAX_timestamp (group_of source_ip rows k) \<rparr>)
           (filter (\<lambda>k. length (group_of source_ip rows k) \<ge> threshold)
              (group_keys arrange source_ip rows)))"

text \<open>
  The query by username selects the bare column \<open>source_ip\<close>, which SQLite takes from a
  row of the group that it does not specify: the parameter \<open>bare\<close> names that row.
\<close>

definition userQuery ::
  "(string \<Rightarrow> int option) \<Rightarrow> (log list \<Rightarrow> log) \<Rightarrow> (string list \<Rightarrow> string list) \<Rightarrow> int \<Rightarrow> int
     \<Rightarrow> log list \<Rightarrow> nat \<Rightarrow> user_result list" where
  "userQuery T bare arrange now timeWindow tbl threshold =
     (let rows = filter (\<lambda>l. failed_status (status l) \<and> username l \<noteq> None
                             \<and> newer_than T now timeWindow l) tbl
      in map (\<lambda>k. \<lparr> user_username = k,
                     user_source_ip = source_ip (bare (group_of username rows k)),
                     user_attempt_count = length (group_of username rows k),
                     user_first_attempt = MIN_timestamp (group_of username rows k),
                     user_last_attempt = MAX_timestamp (group_of username rows k) \<rparr>)
           (filter (\<lambda>k. length (group_of username rows k) \<ge> threshold)
              (group_keys arrange username rows)))"

fun ip_alerts ::
  "int \<Rightarrow> int \<Rightarrow> ip_result list \<Rightarrow> (ip_result + user_result) detected list \<Rightarrow> world
     \<Rightarrow> (ip_result + user_result) detected list \<times> world" where
  "ip_alerts now timeWindow [] found w = (found, w)"
| "ip_alerts now timeWindow (r # rs) found w =
     (let (i, w1) = insertAlert now
            ''brute_force''
            ''high''
            (''Brute Force Attack Detected from '' @ ip_source_ip r)
            (''Detected '' @ show_nat (ip_attempt_count r) @ '' failed login attempts from IP ''
               @ ip_source_ip r @ '' within '' @ show_int (timeWindow div 60) @ '' minutes'')
            (Some (ip_source_ip r))
            (Some (ip_source_ip r))
            (ip_attempt_count r)
            (ip_first_attempt r)
            (ip_last_attempt r)
            None w
      in ip_alerts now timeWindow rs
           (found @ [\<lparr> detected_id = i, detected_type = ''brute_force_ip'', result = Inl r \<rparr>]) w1)"

fun user_alerts ::
  "int \<Rightarrow> int \<Rightarrow> user_result list \<Rightarrow> (ip_result + user_result) detected list \<Rightarrow> world
     \<Rightarrow> (ip_result + user_result) detected list \<times> world" where
  "user_alerts now timeWindow [] found w = (found, w)"
| "user_alerts now timeWindow (r # rs) found w =
     (let (i, w1) = insertAlert now
            ''brute_force''
            ''high''
            (''Brute Force Attack on Account '' @ user_username r)
            (''Detected '' @ show_nat (user_attempt_count r) @ '' failed login attempts for user ''
               @ user_username r @ '' within '' @ show_int (timeWindow div 60) @ '' minutes'')
            (Some (user_username r))
            (user_source_ip r)
            (user_attempt_count r)
            (user_first_attempt r)
            (user_last_attempt r)
            None w
      in user_alerts now timeWindow rs
           (found @ [\<lparr> detected_id = i, detected_type = ''brute_force_user'', result = Inr r \<rparr>]) w1)"

definition detectBruteForce ::
  "(string \<Rightarrow> int option) \<Rightarrow> (log list \<Rightarrow> log) \<Rightarrow> (string list \<Rightarrow> string list) \<Rightarrow> int \<Rightarrow> world
     \<Rightarrow> (ip_result + user_result) detected list \<times> world" where
  "detectBruteForce T bare arrange now w =
     (let threshold = 5;
          timeWindow = 300;
          ipResults = ipQuery T arrange now timeWindow (logs w) threshold;
          userResults = userQuery T bare arrange now timeWindow (logs w) threshold;
          (found1, w1) = ip_alerts now timeWindow ipResults [] w
      in user_alerts now timeWindow userResults found1 w1)"

subsection \<open>detectOffHoursAccess\<close>

definition success_status :: "string option \<Rightarrow> bool" where
  "success_status s =
     (like_infix ''success'' s \<or> like_infix ''accepted'' s \<or> s = Some ''success'')"

definition off_hours :: "(string \<Rightarrow> int option) \<Rightarrow> int \<Rightarrow> int \<Rightarrow> log \<Rightarrow> bool" where
  "off_hours T businessStartHour businessEndHour l =
     (case T (timestamp l) of
        None \<Rightarrow> False
      | Some t \<Rightarrow> hour_of t < businessStartHour \<or> hour_of t \<ge> businessEndHour
                  \<or> weekday_of t \<in> {0, 6})"

record off_hours_result =
  oh_username :: "string option"
  oh_source_ip :: "string option"
  oh_timestamp :: string
  oh_event_type :: "string option"

definition offHoursQuery ::
  "(string \<Rightarrow> int option) \<Rightarrow> int \<Rightarrow> log list \<Rightarrow> int \<Rightarrow> int \<Rightarrow> off_hours_result list" where
  "offHoursQuery T now tbl businessStartHour businessEndHour =
     map (\<lambda>l. \<lparr> oh_username = username l, oh_source_ip = source_ip l,
                oh_timestamp = timestamp l, oh_event_type = event_type l \<rparr>)
       (filter (\<lambda>l. success_status (status l)
                     \<and> off_hours T businessStartHour businessEndHour l
                     \<and> newer_than T now 86400 l) tbl)"

text \<open>In a template literal \<open>null\<close> prints as the word \<open>null\<close>.\<close>

definition template_text :: "string option \<Rightarrow> string" where
  "template_text x = (case x of None \<Rightarrow> ''null'' | Some s \<Rightarrow> s)"

definition or_text :: "string option \<Rightarrow> string \<Rightarrow> string" where
  "or_text x d = (case x of None \<Rightarrow> d | Some s \<Rightarrow> if s = [] then d else s)"

fun off_hours_alerts ::
  "int \<Rightarrow> off_hours_result list \<Rightarrow> off_hours_result detected list \<Rightarrow> world
     \<Rightarrow> off_hours_result detected list \<times> world" where
  "off_hours_alerts now [] found w = (found, w)"
| "off_hours_alerts now (r # rs) found w =
     (let (i, w1) = insertAlert now
            ''off_hours_access''
            ''medium''
            (''Off-Hours Access by '' @ or_text (oh_username r) ''Unknown User'')
            (''Successful login detected outside business hours from IP ''
               @ template_text (oh_source_ip r))
            (oh_username r)
            (oh_source_ip r)
            1
            (oh_timestamp r)
            (oh_timestamp r)
            None w
      in off_hours_alerts now rs
           (found @ [\<lparr> detected_id = i, detected_type = ''off_hours'', result = r \<rparr>]) w1)"

definition detectOffHoursAccess ::
  "(string \<Rightarrow> int option) \<Rightarrow> int \<Rightarrow> world \<Rightarrow> off_hours_result detected list \<times> world" where
  "detectOffHoursAccess T now w =
     (let businessStartHour = 9;
          businessEndHour = 18
      in off_hours_alerts now (offHoursQuery T now (logs w) businessStartHour businessEndHour) [] w)"

subsection \<open>detectGeoAnomalies\<close>

definition suspiciousRanges :: "string list" where
  "suspiciousRanges = [''10.0.0.'', ''192.168.'', ''0.0.0.'']"

record geo_result =
  geo_source_ip :: string
  geo_username :: "string option"
  access_count :: nat
  geo_first_seen :: string
  geo_last_seen :: string

definition geoQuery ::
  "(string \<Rightarrow> int option) \<Rightarrow> (log list \<Rightarrow> log) \<Rightarrow> (string list \<Rightarrow> string list) \<Rightarrow> int \<Rightarrow> log list
     \<Rightarrow> string \<Rightarrow> geo_result list" where
  "geoQuery T bare arrange now tbl rng =
     (let rows = filter (\<lambda>l. like_prefix rng (source_ip l) \<and> newer_than T now 86400 l) tbl
      in map (\<lambda>k. \<lparr> geo_source_ip = k,
                     geo_username = username (bare (group_of source_ip rows k)),
                     access_count = length (group_of source_ip rows k),
                     geo_first_seen = MIN_timestamp (group_of source_ip rows k),
                     geo_last_seen = MAX_timestamp (group_of source_ip rows k) \<rparr>)
           (group_keys arrange source_ip rows))"

fun geo_alerts ::
  "int \<Rightarrow> geo_result list \<Rightarrow> geo_result detected list \<Rightarrow> world
     \<Rightarrow> geo_result detected list \<times> world" where
  "geo_alerts now [] found w = (found, w)"
| "geo_alerts now (r # rs) found w =
     (let (i, w1) = insertAlert now
            ''geo_anomaly''
            ''medium''
            (''Suspicious IP Range Detected: '' @ geo_source_ip r)
            (''Activity detected from potentially suspicious IP range. ''
               @ show_nat (access_count r) @ '' events recorded.'')
            (geo_username r)
            (Some (geo_source_ip r))
            (access_count r)
            (geo_first_seen r)
            (geo_last_seen r)
            None w
      in geo_alerts now rs
           (found @ [\<lparr> detected_id = i, detected_type = ''geo_anomaly'', result = r \<rparr>]) w1)"

fun geo_ranges ::
  "(string \<Rightarrow> int option) \<Rightarrow> (log list \<Rightarrow> log) \<Rightarrow> (string list \<Rightarrow> string list) \<Rightarrow> int \<Rightarrow> string list
     \<Rightarrow> geo_result detected list \<Rightarrow> world \<Rightarrow> geo_result detected list \<times> world" where
  "geo_ranges T bare arrange now [] found w = (found, w)"
| "geo_ranges T bare arrange now (rng # ranges) found w =
     (let (found1, w1) = geo_alerts now (geoQuery T bare arrange now (logs w) rng) found w
      in geo_ranges T bare arrange now ranges found1 w1)"

definition detectGeoAnomalies ::
  "(string \<Rightarrow> int option) \<Rightarrow> (log list \<Rightarrow> log) \<Rightarrow> (string list \<Rightarrow> string list) \<Rightarrow> int \<Rightarrow> world
     \<Rightarrow> geo_result detected list \<times> world" where
  "detectGeoAnomalies T bare arrange now w = geo_ranges T bare arrange now suspiciousRanges [] w"

subsection \<open>detectHighRiskIPs\<close>

text \<open>\<open>SELECT DISTINCT source_ip\<close> over the last day, in the order the engine gives.\<close>

definition recentIPs ::
  "(string \<Rightarrow> int option) \<Rightarrow> (string list \<Rightarrow> string list) \<Rightarrow> int \<Rightarrow> log list \<Rightarrow> string list" where
  "recentIPs T arrange now tbl =
     arrange (unique (List.map_filter source_ip
       (filter (\<lambda>l. source_ip l \<noteq> None \<and> newer_than T now 86400 l) tbl)))"

text \<open>
  The activity query has no GROUP BY: always one row, whose \<open>MIN\<close> and \<open>MAX\<close> are NULL
  when no row of \<open>logs\<close> matches.
\<close>

record activity =
  act_count :: nat
  act_first_seen :: "string option"
  act_last_seen :: "string option"

definition activityQuery :: "(string \<Rightarrow> int option) \<Rightarrow> int \<Rightarrow> log list \<Rightarrow> string \<Rightarrow> activity" where
  "activityQuery T now tbl ip =
     (let rows = filter (\<lambda>l. source_ip l = Some ip \<and> newer_than T now 86400 l) tbl
      in \<lparr> act_count = length rows,
           act_first_seen = (if rows = [] then None else Some (MIN_timestamp rows)),
           act_last_seen = (if rows = [] then None else Some (MAX_timestamp rows)) \<rparr>)"

record high_risk_result =
  hr_ip :: string
  abuse_score :: "jsnum option"
  risk_level :: string
  hr_activity :: activity

text \<open>
  A number or \<open>null\<close> in a template literal. A whole number below \<open>10^21\<close> in magnitude
  prints as its decimal digits, which is where the scores and counts of a reputation
  record are.
\<close>

definition number_text :: "jsnum option \<Rightarrow> string" where
  "number_text n =
     (case n of
        None \<Rightarrow> ''null''
      | Some (Num x) \<Rightarrow> show_int x
      | Some NaN \<Rightarrow> ''NaN''
      | Some Infinity \<Rightarrow> ''Infinity''
      | Some MinusInfinity \<Rightarrow> ''-Infinity'')"

text \<open>
  \<open>Object.entries(reputations)\<close>. The own keys of an object come in this order: first the
  keys that are array indices (the decimal text of a number up to \<open>2^32 - 2\<close> with no
  leading zero), by ascending value, then the other strings in the order they were
  added. Assigning to the key \<open>__proto__\<close> sets the prototype and adds no own property.
\<close>

definition index_value :: "string \<Rightarrow> nat" where
  "index_value k = foldl (\<lambda>acc c. acc * 10 + digit_of c) 0 k"

definition array_index :: "string \<Rightarrow> bool" where
  "array_index k =
     (k \<noteq> [] \<and> list_all is_digit k \<and> (hd k \<noteq> CHR ''0'' \<or> k = ''0'')
      \<and> index_value k \<le> 4294967294)"

definition entry_order :: "string list \<Rightarrow> string list" where
  "entry_order ks =
     (let own = filter (\<lambda>k. k \<noteq> ''__proto__'') ks
      in sort_key index_value (filter array_index own) @ filter (\<lambda>k. \<not> array_index k) own)"

definition Object_entries :: "(string \<times> 'a) list \<Rightarrow> (string \<times> 'a) list" where
  "Object_entries assigned =
     map (\<lambda>k. (k, the (map_of (rev assigned) k))) (entry_order (unique (map fst assigned)))"

text \<open>
  The rule awaits the lookups and their pauses between its statements, so each statement
  has its own reading of the clock: one for the DISTINCT query, one for the lookup of
  each address, one for the activity query of each address (and the insertion that
  follows it at once).
\<close>

record readings =
  scan_at :: int
  lookup_at :: "string \<Rightarrow> int"
  activity_at :: "string \<Rightarrow> int"

text \<open>
  The loop over \<open>Object.entries(reputations)\<close>. Columns \<open>first_seen\<close> and \<open>last_seen\<close> of
  \<open>alerts\<close> are NOT NULL: handing \<open>insertAlert\<close> a NULL raises, which ends the loop with
  the alerts inserted so far left in the table.
\<close>

fun high_risk_alerts ::
  "(string \<Rightarrow> int option) \<Rightarrow> (string \<Rightarrow> int) \<Rightarrow> (string \<times> lookup_result option) list
     \<Rightarrow> high_risk_result detected list \<Rightarrow> world
     \<Rightarrow> (js_error + high_risk_result detected list) \<times> world" where
  "high_risk_alerts T reading [] found w = (Inr found, w)"
| "high_risk_alerts T reading ((ip, reputation) # rest) found w =
     (case reputation of
        None \<Rightarrow> high_risk_alerts T reading rest found w
      | Some res \<Rightarrow>
          if whitelisted res then high_risk_alerts T reading rest found w
          else if at_least (score_of res) 50 then
            (let riskLevel = getRiskLevel (score_of res);
                 sev = (if at_least (score_of res) 75 then ''critical'' else ''high'');
                 act = activityQuery T (reading ip) (logs w) ip
             in case (act_first_seen act, act_last_seen act) of
                  (Some first_s, Some last_s) \<Rightarrow>
                    (let (i, w1) = insertAlert (reading ip)
                           ''high_risk_ip''
                           sev
                           (''High-Risk IP Detected: '' @ ip)
                           (''IP '' @ ip @ '' has an abuse confidence score of ''
                              @ number_text (score_of res) @ ''% (''
                              @ number_text (reports_of res) @ '' reports). Country: ''
                              @ or_text (country_of res) ''Unknown'' @ ''. Usage: ''
                              @ or_text (usage_of res) ''Unknown'' @ ''. Activity count: ''
                              @ show_nat (act_count act) @ '' events.'')
                           (Some ip)
                           (Some ip)
                           (act_count act)
                           first_s
                           last_s
                           None w
                     in high_risk_alerts T reading rest
                          (found @ [\<lparr> detected_id = i, detected_type = ''high_risk_ip'',
                                      result = \<lparr> hr_ip = ip,
                                                 abuse_score = score_of res,
                                                 risk_level = riskLevel,
                                                 hr_activity = act \<rparr> \<rparr>]) w1)
                | _ \<Rightarrow> (Inl ConstraintError, w))
          else high_risk_alerts T reading rest found w)"

definition detectHighRiskIPs ::
  "(string \<Rightarrow> int option) \<Rightarrow> (string list \<Rightarrow> string list) \<Rightarrow> string option \<Rightarrow> (string \<Rightarrow> reply)
     \<Rightarrow> runtime \<Rightarrow> readings \<Rightarrow> world
     \<Rightarrow> (js_error + high_risk_result detected list) \<times> world" where
  "detectHighRiskIPs T arrange api_key provider rt clock w =
     (let ips = recentIPs T arrange (scan_at clock) (logs w) in
      if length ips = 0 then (Inr [], w)
      else
        (let (reputations, w1) =
               enrichIPsBatch api_key provider rt (lookup_at clock) (map Some ips) w
         in high_risk_alerts T (activity_at clock) (Object_entries reputations) [] w1))"

subsection \<open>runAllDetections\<close>

record detections =
  brute_force :: "(ip_result + user_result) detected list"
  off_hours_found :: "off_hours_result detected list"
  geo_anomaly :: "geo_result detected list"
  high_risk_ip :: "high_risk_result detected list"
  total :: nat

text \<open>
  The first three rules run back to back, at the reading \<open>now\<close>; the fourth has the
  readings \<open>clock\<close>.
\<close>

definition runAllDetections ::
  "(string \<Rightarrow> int option) \<Rightarrow> (log list \<Rightarrow> log) \<Rightarrow> (string list \<Rightarrow> string list) \<Rightarrow> string option
     \<Rightarrow> (string \<Rightarrow> reply) \<Rightarrow> runtime \<Rightarrow> int \<Rightarrow> readings \<Rightarrow> world \<Rightarrow> (js_error + detections) \<times> world" where
  "runAllDetections T bare arrange api_key provider rt now clock w =
     (let (bruteForceAlerts, w1) = detectBruteForce T bare arrange now w;
          (offHoursAlerts, w2) = detectOffHoursAccess T now w1;
          (geoAlerts, w3) = detectGeoAnomalies T bare arrange now w2
      in case detectHighRiskIPs T arrange api_key provider rt clock w3 of
           (Inl err, w4) \<Rightarrow> (Inl err, w4)
         | (Inr highRiskIPAlerts, w4) \<Rightarrow>
             (Inr \<lparr> brute_force = bruteForceAlerts,
                    off_hours_found = offHoursAlerts,
                    geo_anomaly = geoAlerts,
                    high_risk_ip = highRiskIPAlerts,
                    total = length bruteForceAlerts + length offHoursAlerts
                            + length geoAlerts + length highRiskIPAlerts \<rparr>, w4))"

section \<open>Ingestion (src/utils/parsers.js and the upload and batch routes)\<close>

text \<open>
  Reading a property: of \<open>null\<close> it throws a TypeError, of an object it is the member or
  \<open>undefined\<close> (of a name written twice the last member counts), of any other JSON value
  it is \<open>undefined\<close> for every name used here. \<open>a || b || ... || d\<close> is the first truthy
  operand, else the last one.
\<close>

fun js_truthy :: "json \<Rightarrow> bool" where
  "js_truthy JNull = False"
| "js_truthy (JBool b) = b"
| "js_truthy (JNum n) = (n \<noteq> 0)"
| "js_truthy (JStr s) = (s \<noteq> [])"
| "js_truthy (JArr xs) = True"
| "js_truthy (JObj ms) = True"

fun property :: "json \<Rightarrow> string \<Rightarrow> json option" where
  "property (JObj ms) k = map_of (rev ms) k"
| "property v k = None"

fun first_truthy :: "json \<Rightarrow> string list \<Rightarrow> json \<Rightarrow> json" where
  "first_truthy entry [] d = d"
| "first_truthy entry (k # ks) d =
     (case property entry k of
        Some v \<Rightarrow> if js_truthy v then v else first_truthy entry ks d
      | None \<Rightarrow> first_truthy entry ks d)"

record normalized =
  n_timestamp :: json
  n_event_type :: json
  n_username :: json
  n_source_ip :: json
  n_destination_ip :: json
  n_status :: json
  n_message :: json
  n_raw_data :: string

text \<open>\<open>iso_now\<close> is \<open>new Date().toISOString()\<close>.\<close>

definition normalizeLogEntry :: "runtime \<Rightarrow> string \<Rightarrow> json \<Rightarrow> js_error + normalized" where
  "normalizeLogEntry rt iso_now entry =
     (if entry = JNull then Inl TypeError
      else Inr
        \<lparr> n_timestamp = first_truthy entry [''timestamp'', ''time'', ''datetime'', ''date''] (JStr iso_now),
          n_event_type = first_truthy entry [''event_type'', ''eventType'', ''type'', ''action''] (JStr ''unknown''),
          n_username = first_truthy entry [''username'', ''user'', ''account'', ''userid''] JNull,
          n_source_ip = first_truthy entry [''source_ip'', ''sourceIP'', ''src_ip'', ''ip'', ''clientIP''] JNull,
          n_destination_ip = first_truthy entry [''destination_ip'', ''destIP'', ''dest_ip'', ''target_ip''] JNull,
          n_status = first_truthy entry [''status'', ''result'', ''outcome''] JNull,
          n_message = first_truthy entry [''message'', ''description'', ''msg'', ''details''] JNull,
          n_raw_data = JSON_stringify rt entry \<rparr>)"

text \<open>
  The prepared statement \<open>insertLog\<close>, run on the eight values of a normalized entry. How
  the arguments of \<open>run\<close> are bound to the eight parameters is the database driver's
  business, and how a bound value is stored in a TEXT column is the engine's: the two
  together are the parameter \<open>binding\<close>, which answers the arguments with an exception or
  with the values that reach the columns, each NULL or a text. (The driver binds
  \<open>null\<close>, a string or a number to the next parameter, spreads an array over the next
  parameters, and throws for a boolean and when the parameters are not filled exactly.)
  Column \<open>timestamp\<close> is NOT NULL.
\<close>

definition arguments :: "normalized \<Rightarrow> json list" where
  "arguments n =
     [n_timestamp n, n_event_type n, n_username n, n_source_ip n, n_destination_ip n,
      n_status n, n_message n, JStr (n_raw_data n)]"

definition insertLog ::
  "(json list \<Rightarrow> js_error + string option list) \<Rightarrow> int \<Rightarrow> normalized \<Rightarrow> world \<Rightarrow> js_error + world" where
  "insertLog binding now n w =
     (case binding (arguments n) of
        Inl err \<Rightarrow> Inl err
      | Inr vs \<Rightarrow>
          if length vs \<noteq> 8 then Inl RangeError
          else
            (case vs ! 0 of
               None \<Rightarrow> Inl ConstraintError
             | Some t \<Rightarrow>
                 Inr (w\<lparr>logs := logs w @
                          [\<lparr> log_id = log_seq w + 1, timestamp = t, event_type = vs ! 1,
                             username = vs ! 2, source_ip = vs ! 3, destination_ip = vs ! 4,
                             status = vs ! 5, message = vs ! 6, log_raw_data = vs ! 7,
                             created_at = now \<rparr>],
                        log_seq := log_seq w + 1\<rparr>)))"

text \<open>The body of \<open>insertMany\<close>: the loop stops at the first exception.\<close>

fun insert_entries ::
  "runtime \<Rightarrow> (json list \<Rightarrow> js_error + string option list) \<Rightarrow> string \<Rightarrow> int \<Rightarrow> json list \<Rightarrow> world
     \<Rightarrow> js_error + world" where
  "insert_entries rt binding iso_now now [] w = Inr w"
| "insert_entries rt binding iso_now now (entry # entries) w =
     (case normalizeLogEntry rt iso_now entry of
        Inl err \<Rightarrow> Inl err
      | Inr n \<Rightarrow>
          (case insertLog binding now n w of
             Inl err \<Rightarrow> Inl err
           | Inr w1 \<Rightarrow> insert_entries rt binding iso_now now entries w1))"

text \<open>
  \<open>db.transaction(f)\<close> of the driver: BEGIN, run \<open>f\<close>, COMMIT; an exception of \<open>f\<close> is
  answered with ROLLBACK and thrown on.
\<close>

definition transaction :: "(world \<Rightarrow> js_error + world) \<Rightarrow> world \<Rightarrow> (js_error + unit) \<times> world" where
  "transaction f w = (case f w of Inl err \<Rightarrow> (Inl err, w) | Inr w1 \<Rightarrow> (Inr (), w1))"

definition insertMany ::
  "runtime \<Rightarrow> (json list \<Rightarrow> js_error + string option list) \<Rightarrow> string \<Rightarrow> int \<Rightarrow> json list \<Rightarrow> world
     \<Rightarrow> (js_error + unit) \<times> world" where
  "insertMany rt binding iso_now now entries w =
     transaction (insert_entries rt binding iso_now now entries) w"

section \<open>Notions used in the statements\<close>

text \<open>
  The engine may give the rows of a query in any order: \<open>arrange\<close> permutes every list.
\<close>

definition reorders :: "(string list \<Rightarrow> string list) \<Rightarrow> bool" where
  "reorders arrange = (\<forall>xs. mset (arrange xs) = mset xs)"





text \<open>
  A provider that errors: the request is rejected, the status is not 2xx, or the body
  does not parse.
\<close>

fun failing :: "reply \<Rightarrow> bool" where
  "failing Rejected = True"
| "failing (Response code b) = (\<not> response_ok code \<or> b = NotJson)"

text \<open>
  For ingestion. None of the names \<open>ks\<close> gives the entry a truthy value (the field is
  absent or falsy). The value \<open>v\<close> is the one the entry has under the first of the names
  \<open>ks\<close> that gives it a truthy value. The value \<open>v\<close> is the field of the entry known under
  the names \<open>ks\<close>, with default \<open>d\<close>. An entry that normalizes and whose values the statement
  \<open>insertLog\<close> accepts.
\<close>

definition missing :: "json \<Rightarrow> string list \<Rightarrow> bool" where
  "missing entry ks =
     list_all (\<lambda>k. case property entry k of None \<Rightarrow> True | Some v \<Rightarrow> \<not> js_truthy v) ks"

definition first_named :: "json \<Rightarrow> string list \<Rightarrow> json \<Rightarrow> bool" where
  "first_named entry ks v =
     list_ex (\<lambda>i. property entry (ks ! i) = Some v \<and> js_truthy v \<and> missing entry (take i ks))
       [0..<length ks]"

definition field_or :: "json \<Rightarrow> string list \<Rightarrow> json \<Rightarrow> json \<Rightarrow> bool" where
  "field_or entry ks d v = (if missing entry ks then v = d else first_named entry ks v)"

definition storable ::
  "runtime \<Rightarrow> (json list \<Rightarrow> js_error + string option list) \<Rightarrow> string \<Rightarrow> int \<Rightarrow> json \<Rightarrow> bool" where
  "storable rt binding iso_now now entry =
     (case normalizeLogEntry rt iso_now entry of
        Inl err \<Rightarrow> False
      | Inr n \<Rightarrow> (case insertLog binding now n empty_world of Inl err \<Rightarrow> False | Inr w \<Rightarrow> True))"

text \<open>
  The eight columns of a row of \<open>logs\<close> that an insertion fills, and the values the binding
  gives them for an entry (none when the entry does not normalize or bind).
\<close>

definition columns_of :: "log \<Rightarrow> string option list" where
  "columns_of l =
     [Some (timestamp l), event_type l, username l, source_ip l, destination_ip l, status l,
      message l, log_raw_data l]"

definition bound_values ::
  "runtime \<Rightarrow> (json list \<Rightarrow> js_error + string option list) \<Rightarrow> string \<Rightarrow> json \<Rightarrow> string option list" where
  "bound_values rt binding iso_now entry =
     (case normalizeLogEntry rt iso_now entry of
        Inl err \<Rightarrow> []
      | Inr n \<Rightarrow> (case binding (arguments n) of Inl err \<Rightarrow> [] | Inr vs \<Rightarrow> vs))"







definition ip_alert_row :: "int \<Rightarrow> int \<Rightarrow> nat \<times> ip_result \<Rightarrow> alert" where
  "ip_alert_row now timeWindow x =
     \<lparr> alert_id = fst x, alert_type = ''brute_force'', severity = ''high'',
       title = ''Brute Force Attack Detected from '' @ ip_source_ip (snd x),
       description = ''Detected '' @ show_nat (ip_attempt_count (snd x))
          @ '' failed login attempts from IP '' @ ip_source_ip (snd x) @ '' within ''
          @ show_int (timeWindow div 60) @ '' minutes'',
       affected_entity = Some (ip_source_ip (snd x)), alert_source_ip = Some (ip_source_ip (snd x)),
       event_count = ip_attempt_count (snd x), first_seen = ip_first_attempt (snd x),
       last_seen = ip_last_attempt (snd x), alert_status = ''open'', ai_summary = None,
       alert_created_at = now \<rparr>"

definition user_alert_row :: "int \<Rightarrow> int \<Rightarrow> nat \<times> user_result \<Rightarrow> alert" where
  "user_alert_row now timeWindow x =
     \<lparr> alert_id = fst x, alert_type = ''brute_force'', severity = ''high'',
       title = ''Brute Force Attack on Account '' @ user_username (snd x),
       description = ''Detected '' @ show_nat (user_attempt_count (snd x))
          @ '' failed login attempts for user '' @ user_username (snd x) @ '' within ''
          @ show_int (timeWindow div 60) @ '' minutes'',
       affected_entity = Some (user_username (snd x)), alert_source_ip = user_source_ip (snd x),
       event_count = user_attempt_count (snd x), first_seen = user_first_attempt (snd x),
       last_seen = user_last_attempt (snd x), alert_status = ''open'', ai_summary = None,
       alert_created_at = now \<rparr>"

definition ip_found :: "nat \<times> ip_result \<Rightarrow> (ip_result + user_result) detected" where
  "ip_found x = \<lparr> detected_id = fst x, detected_type = ''brute_force_ip'', result = Inl (snd x) \<rparr>"

definition user_found :: "nat \<times> user_result \<Rightarrow> (ip_result + user_result) detected" where
  "user_found x = \<lparr> detected_id = fst x, detected_type = ''brute_force_user'', result = Inr (snd x) \<rparr>"

text \<open>
  For the high-risk rule. What a lookup answers when the provider cannot be used: the
  fresh row of the cache, else the generated record. The test of the rule on an answer.
  An address has an event in \<open>logs\<close> stamped later than 24 hours before \<open>now\<close>. The
  addresses the rule goes through, in its order: the distinct non-empty recent source
  addresses, as the keys of the object the lookups filled. Those of them it flags when
  the provider cannot be used. The addresses a run reports as high-risk, none when the
  run raised; whether a run raised.
\<close>

definition fallback_answer :: "runtime \<Rightarrow> int \<Rightarrow> cached list \<Rightarrow> string \<Rightarrow> lookup_result" where
  "fallback_answer rt now tbl ip =
     (case getIPReputation now tbl ip of
        Some r \<Rightarrow> Cached r
      | None \<Rightarrow> Fetched (generateStubReputation rt ip))"

definition high_risk :: "lookup_result \<Rightarrow> bool" where
  "high_risk res = (\<not> whitelisted res \<and> at_least (score_of res) 50)"

definition seen_within :: "(string \<Rightarrow> int option) \<Rightarrow> int \<Rightarrow> log list \<Rightarrow> string \<Rightarrow> bool" where
  "seen_within T now tbl ip = list_ex (\<lambda>l. source_ip l = Some ip \<and> newer_than T now 86400 l) tbl"

definition candidates ::
  "(string \<Rightarrow> int option) \<Rightarrow> (string list \<Rightarrow> string list) \<Rightarrow> int \<Rightarrow> log list \<Rightarrow> string list" where
  "candidates T arrange now tbl =
     entry_order (unique (filter (\<lambda>ip. ip \<noteq> []) (recentIPs T arrange now tbl)))"

definition flagged ::
  "(string \<Rightarrow> int option) \<Rightarrow> (string list \<Rightarrow> string list) \<Rightarrow> runtime \<Rightarrow> readings \<Rightarrow> world \<Rightarrow> string list" where
  "flagged T arrange rt clock w =
     filter (\<lambda>ip. high_risk (fallback_answer rt (lookup_at clock ip) (ip_reputation w) ip))
       (candidates T arrange (scan_at clock) (logs w))"

definition flagged_ips :: "js_error + detections \<Rightarrow> string list" where
  "flagged_ips r = (case r of Inl err \<Rightarrow> [] | Inr res \<Rightarrow> map (\<lambda>d. hr_ip (result d)) (high_risk_ip res))"

definition raised :: "js_error + detections \<Rightarrow> js_error option" where
  "raised r = (case r of Inl err \<Rightarrow> Some err | Inr res \<Rightarrow> None)"

text \<open>The columns of the alerts a rule inserted that the claims speak of.\<close>

definition alert_columns ::
  "alert \<Rightarrow> string \<times> string \<times> nat \<times> string \<times> string \<times> string option \<times> string option" where
  "alert_columns a =
     (alert_type a, severity a, event_count a, first_seen a, last_seen a, affected_entity a,
      alert_source_ip a)"

definition new_alerts :: "world \<Rightarrow> world \<Rightarrow> alert list" where
  "new_alerts w w' = drop (length (alerts w)) (alerts w')"

section \<open>Sample data\<close>

text \<open>Concrete states and inputs on which the properties below are exercised.\<close>

definition cached_row :: "string \<Rightarrow> int \<Rightarrow> cached" where
  "cached_row ip checked =
     \<lparr> ip_address = ip, abuse_confidence_score = Some (Num 10), country_code = Some ''NL'',
       usage_type = Some ''Residential'', is_whitelisted = 0, total_reports = Some (Num 2),
       raw_data = ''{}'', last_checked = checked \<rparr>"

text \<open>The dotted-quad text of the IPv4 address with octets \<open>a\<close>, \<open>b\<close>, \<open>c\<close>, \<open>d\<close>.\<close>

definition dotted :: "nat \<Rightarrow> nat \<Rightarrow> nat \<Rightarrow> nat \<Rightarrow> string" where
  "dotted a b c d = show_nat a @ ''.'' @ show_nat b @ ''.'' @ show_nat c @ ''.'' @ show_nat d"

definition reporting_provider :: "string \<Rightarrow> reply" where
  "reporting_provider ip =
     Response 200 (Json (Some \<lparr> abuseConfidenceScore = Some 100, countryCode = Some ''ZZ'',
                                usageType = None, isWhitelisted = Some False,
                                totalReports_member = Some 40, data_text = ''{}'' \<rparr>))"

definition unreachable_provider :: "string \<Rightarrow> reply" where
  "unreachable_provider ip = Rejected"

text \<open>
  A runtime: a serializer that is good enough where only the presence of the text
  matters, and the reading of a large integer as the nearest double (ties to the even
  one), an infinity from \<open>2^1024\<close> on.
\<close>

definition sample_stringify :: "json \<Rightarrow> string" where
  "sample_stringify j = ''{}''"

fun bit_length :: "nat \<Rightarrow> nat" where
  "bit_length n = (if n = 0 then 0 else Suc (bit_length (n div 2)))"

declare bit_length.simps [simp del]

definition nearest_double :: "int \<Rightarrow> jsnum" where
  "nearest_double n =
     (let m = nat \<bar>n\<bar>;
          e = bit_length m - 53;
          q = m div 2 ^ e;
          r = m mod 2 ^ e;
          v = (if 2 * r > 2 ^ e \<or> (2 * r = 2 ^ e \<and> odd q) then q + 1 else q) * 2 ^ e
      in if v \<ge> 2 ^ 1024 then (if n < 0 then MinusInfinity else Infinity)
         else Num (sgn n * int v))"

definition sample_rt :: runtime where
  "sample_rt = \<lparr> JSON_stringify = sample_stringify, to_double = nearest_double \<rparr>"

text \<open>Clocks: one that stands still, and one that ticks once before the activity is read.\<close>

definition steady :: "int \<Rightarrow> string \<Rightarrow> int" where
  "steady t ip = t"

definition standing :: "int \<Rightarrow> readings" where
  "standing t = \<lparr> scan_at = t, lookup_at = steady t, activity_at = steady t \<rparr>"

definition ticking :: "int \<Rightarrow> readings" where
  "ticking t = \<lparr> scan_at = t, lookup_at = steady t, activity_at = steady (t + 1) \<rparr>"

definition two_cached_world :: world where
  "two_cached_world =
     empty_world\<lparr>ip_reputation := [cached_row ''1.1.1.1'' 900, cached_row ''2.2.2.2'' 950]\<rparr>"

definition boundary_world :: world where
  "boundary_world = empty_world\<lparr>ip_reputation := [cached_row ''8.8.8.8'' 0]\<rparr>"

text \<open>
  A binding in the manner of the driver. Every argument is taken in turn: \<open>null\<close>, a
  string or a number is bound to the next parameter, the elements of an array to the next
  parameters, one after the other; an object stands for named parameters, of which the
  statement has none, and a second object is refused; a boolean, and an array or object
  inside an array, cannot be bound (TypeError); more values than parameters, or fewer at
  the end, is a RangeError. A number is bound as a REAL, which a TEXT column keeps as text
  with a decimal point.
\<close>

fun bind_value :: "json \<Rightarrow> js_error + string option" where
  "bind_value JNull = Inr None"
| "bind_value (JStr s) = Inr (Some s)"
| "bind_value (JNum n) = Inr (Some (show_int n @ ''.0''))"
| "bind_value v = Inl TypeError"

fun bind_values :: "nat \<Rightarrow> string option list \<Rightarrow> json list \<Rightarrow> js_error + string option list" where
  "bind_values m bound [] = Inr bound"
| "bind_values m bound (v # vs) =
     (case bind_value v of
        Inl err \<Rightarrow> Inl err
      | Inr x \<Rightarrow> if length bound \<ge> m then Inl RangeError else bind_values m (bound @ [x]) vs)"

fun bind_args :: "nat \<Rightarrow> bool \<Rightarrow> string option list \<Rightarrow> json list \<Rightarrow> js_error + string option list" where
  "bind_args m named bound [] = (if length bound < m then Inl RangeError else Inr bound)"
| "bind_args m named bound (JArr xs # args) =
     (case bind_values m bound xs of
        Inl err \<Rightarrow> Inl err
      | Inr bound1 \<Rightarrow> bind_args m named bound1 args)"
| "bind_args m named bound (JObj ms # args) =
     (if named then Inl TypeError else bind_args m True bound args)"
| "bind_args m named bound (v # args) =
     (case bind_values m bound [v] of
        Inl err \<Rightarrow> Inl err
      | Inr bound1 \<Rightarrow> bind_args m named bound1 args)"

definition sample_binding :: "json list \<Rightarrow> js_error + string option list" where
  "sample_binding args = bind_args 8 False [] args"

definition login_entry :: json where
  "login_entry = JObj [(''time'', JStr ''2025-10-15T02:00:00Z''), (''user'', JStr ''alice''),
                       (''ip'', JStr ''203.0.113.45''), (''result'', JStr ''success'')]"

definition bare_entry :: json where
  "bare_entry = JObj [(''note'', JStr ''x''), (''status'', JStr [])]"

definition unbindable_entry :: json where
  "unbindable_entry = JObj [(''timestamp'', JBool True)]"

definition listed_entry :: json where
  "listed_entry = JObj [(''timestamp'', JArr [JStr ''2025-10-20T10:00:00Z'']), (''status'', JStr ''failed'')]"

text \<open>
  The engine's reading of the timestamps used below (seconds since the epoch, in UTC; the
  one with the offset \<open>-10:00\<close> is 09:00 of the next day there), a row of \<open>logs\<close>, and a
  store with four logins: Monday 02:00, Monday 10:00, a failed one on Monday 02:00, and
  Sunday 14:00.
\<close>

definition sample_time :: "string \<Rightarrow> int option" where
  "sample_time =
     map_of [(''2025-10-19T14:00:00Z'', 1760882400),
             (''2025-10-19T23:00:00-10:00'', 1760950800),
             (''2025-10-20T02:00:00Z'', 1760925600),
             (''2025-10-20T10:00:00Z'', 1760954400),
             (''2025-10-20T10:00:01Z'', 1760954401),
             (''2025-10-20T10:00:02Z'', 1760954402),
             (''2025-10-20T10:00:03Z'', 1760954403),
             (''2025-10-20T10:00:04Z'', 1760954404),
             (''2025-10-20T11:00:00Z'', 1760958000)]"

definition sample_log :: "nat \<Rightarrow> string \<Rightarrow> string \<Rightarrow> string \<Rightarrow> string \<Rightarrow> log" where
  "sample_log i ts user ip st =
     \<lparr> log_id = i, timestamp = ts, event_type = Some ''login'', username = Some user,
       source_ip = Some ip, destination_ip = None, status = Some st, message = None,
       log_raw_data = Some ''{}'', created_at = 1760954400 \<rparr>"

definition office_world :: world where
  "office_world = empty_world
     \<lparr>logs := [sample_log 1 ''2025-10-20T02:00:00Z'' ''alice'' ''203.0.113.45'' ''success'',
               sample_log 2 ''2025-10-20T10:00:00Z'' ''charlie'' ''172.16.0.5'' ''success'',
               sample_log 3 ''2025-10-20T02:00:00Z'' ''david'' ''192.168.1.105'' ''failed'',
               sample_log 4 ''2025-10-19T14:00:00Z'' ''bob'' ''198.51.100.22'' ''Accepted''],
      log_seq := 4\<rparr>"

text \<open>
  A store with two logins: a success stamped Sunday 23:00 at the offset \<open>-10:00\<close>, and an
  attempt of Monday 02:00 whose status speaks of a denial and of acceptance.
\<close>

definition zone_world :: world where
  "zone_world = empty_world
     \<lparr>logs := [sample_log 1 ''2025-10-19T23:00:00-10:00'' ''erin'' ''198.51.100.7'' ''success'',
               sample_log 2 ''2025-10-20T02:00:00Z'' ''frank'' ''198.51.100.8''
                 ''Access denied: token not accepted''],
      log_seq := 2\<rparr>"



text \<open>A store with one login, in business hours, from 203.0.113.250.\<close>

definition attack_world :: world where
  "attack_world = empty_world
     \<lparr>logs := [sample_log 1 ''2025-10-20T10:00:00Z'' ''admin'' ''203.0.113.250'' ''success''],
      log_seq := 1\<rparr>"

section \<open>Properties\<close>

subsection \<open>Auxiliary facts\<close>

lemma unique_fold_set:
  "set (fold (\<lambda>x acc. if x \<in> set acc then acc else acc @ [x]) xs acc) = set acc \<union> set xs"
  by (induction xs arbitrary: acc) auto

lemma unique_fold_distinct:
  "distinct acc \<Longrightarrow> distinct (fold (\<lambda>x acc. if x \<in> set acc then acc else acc @ [x]) xs acc)"
  by (induction xs arbitrary: acc) auto

lemma set_unique: "set (unique xs) = set xs"
  by (simp add: unique_def unique_fold_set)

lemma distinct_unique: "distinct (unique xs)"
  by (simp add: unique_def unique_fold_distinct)

lemma set_truthy_only: "set (truthy_only xs) = {ip. Some ip \<in> set xs \<and> ip \<noteq> []}"
  by (induction xs rule: truthy_only.induct) auto

lemma lookup_falsy:
  "\<not> truthy ipAddress \<Longrightarrow> getIPReputationWithCache k p s now ipAddress w = (None, w)"
  by (cases ipAddress) (simp_all add: getIPReputationWithCache_def)

lemma enrich_loop_keys:
  "map fst (fst (enrich_loop k p s tm ips acc w)) = map fst acc @ ips"
  by (induction ips arbitrary: acc w) (simp_all add: split_beta Let_def)

lemma fetch_trace:
  "trace (snd (fetchFromAbuseIPDB k p s ip w)) = trace w @ (if truthy k then [NetworkCall ip] else [])"
  by (simp add: fetchFromAbuseIPDB_def emit_def split: sum.splits)

lemma fetch_tables:
  "ip_reputation (snd (fetchFromAbuseIPDB k p s ip w)) = ip_reputation w"
  "logs (snd (fetchFromAbuseIPDB k p s ip w)) = logs w"
  "alerts (snd (fetchFromAbuseIPDB k p s ip w)) = alerts w"
  "alert_seq (snd (fetchFromAbuseIPDB k p s ip w)) = alert_seq w"
  by (simp_all add: fetchFromAbuseIPDB_def emit_def split: sum.splits)

lemma store_trace:
  "trace (store_in_cache now ip rep w) = trace w @ [CacheRead ip, CacheWrite ip]"
  by (simp add: store_in_cache_def emit_def Let_def)

lemma lookup_pauses:
  "filter is_pause (trace (snd (getIPReputationWithCache k p s now ipAddress w))) = filter is_pause (trace w)"
  by (cases ipAddress)
     (simp_all add: getIPReputationWithCache_def Let_def split_beta emit_def store_trace fetch_trace
        split: option.splits)

lemma enrich_loop_pauses:
  "filter is_pause (trace (snd (enrich_loop k p s tm ips acc w)))
     = filter is_pause (trace w) @ replicate (if truthy k then length ips else 0) (Sleep 250)"
proof (induction ips arbitrary: acc w)
  case Nil
  then show ?case by simp
next
  case (Cons ip ips)
  show ?case
    by (simp add: split_beta Let_def Cons.IH lookup_pauses emit_def replicate_app_Cons_same)
qed

lemma lookup_trace:
  "trace (snd (getIPReputationWithCache k p s now (Some ip) w))
     = trace w @ lookup_events (truthy k) ip (fst (getIPReputationWithCache k p s now (Some ip) w))"
  by (simp add: getIPReputationWithCache_def Let_def split_beta emit_def store_trace fetch_trace
        split: option.splits)

lemma enrich_loop_acc:
  "fst (enrich_loop k p s tm ips acc w) = acc @ fst (enrich_loop k p s tm ips [] w)
   \<and> snd (enrich_loop k p s tm ips acc w) = snd (enrich_loop k p s tm ips [] w)"
proof (induction ips arbitrary: acc w)
  case Nil
  then show ?case by simp
next
  case (Cons ip ips)
  let ?l = "getIPReputationWithCache k p s (tm ip) (Some ip) w"
  let ?w2 = "if truthy k then emit (Sleep 250) (snd ?l) else snd ?l"
  have a: "enrich_loop k p s tm (ip # ips) acc w = enrich_loop k p s tm ips (acc @ [(ip, fst ?l)]) ?w2"
    by (simp add: split_beta Let_def)
  have b: "enrich_loop k p s tm (ip # ips) [] w = enrich_loop k p s tm ips [(ip, fst ?l)] ?w2"
    by (simp add: split_beta Let_def)
  show ?case
    unfolding a b
    using Cons.IH [of "acc @ [(ip, fst ?l)]" ?w2] Cons.IH [of "[(ip, fst ?l)]" ?w2]
    by simp
qed

lemma enrich_loop_Cons:
  "enrich_loop k p s tm (ip # ips) [] w =
     (let l = getIPReputationWithCache k p s (tm ip) (Some ip) w;
          w2 = (if truthy k then emit (Sleep 250) (snd l) else snd l)
      in ((ip, fst l) # fst (enrich_loop k p s tm ips [] w2), snd (enrich_loop k p s tm ips [] w2)))"
proof -
  let ?l = "getIPReputationWithCache k p s (tm ip) (Some ip) w"
  let ?w2 = "if truthy k then emit (Sleep 250) (snd ?l) else snd ?l"
  have b: "enrich_loop k p s tm (ip # ips) [] w = enrich_loop k p s tm ips [(ip, fst ?l)] ?w2"
    by (simp add: split_beta Let_def)
  show ?thesis
    unfolding b Let_def
    using enrich_loop_acc [of k p s tm ips "[(ip, fst ?l)]" ?w2]
    by (simp add: prod_eq_iff)
qed

lemma enrich_loop_trace:
  "trace (snd (enrich_loop k p s tm ips [] w))
     = trace w @ concat (map (\<lambda>(ip, r). lookup_events (truthy k) ip r
                                 @ (if truthy k then [Sleep 250] else []))
                           (fst (enrich_loop k p s tm ips [] w)))"
proof (induction ips arbitrary: w)
  case Nil
  then show ?case by simp
next
  case (Cons ip ips)
  show ?case
    unfolding enrich_loop_Cons Let_def
    by (simp add: Cons.IH lookup_trace emit_def)
qed

lemma fetch_ip_address: "ip_address (fst (fetchFromAbuseIPDB k p s ip w)) = ip"
  by (simp add: fetchFromAbuseIPDB_def fetch_attempt_def generateStubReputation_def
      split: sum.splits reply.splits body.splits option.splits if_splits)


lemma getIPReputation_None:
  "getIPReputation now tbl ip = None \<longleftrightarrow> \<not> (\<exists>r \<in> set tbl. ip_address r = ip \<and> fresh now r)"
  by (auto simp: getIPReputation_def find_None_iff)

lemma find_after_update:
  assumes "\<exists>r \<in> set tbl. ip_address r = ip" "ip_address R = ip" "fresh t R"
  shows "find (\<lambda>r. ip_address r = ip \<and> fresh t r) (map (\<lambda>r. if ip_address r = ip then R else r) tbl) = Some R"
  using assms by (induction tbl) auto

lemma find_after_insert:
  assumes "\<not> (\<exists>r \<in> set tbl. ip_address r = ip)" "ip_address R = ip" "fresh t R"
  shows "find (\<lambda>r. ip_address r = ip \<and> fresh t r) (tbl @ [R]) = Some R"
  using assms by (induction tbl) auto

lemma store_then_get:
  assumes "t2 - t1 < 604800"
  shows "getIPReputation t2 (ip_reputation (store_in_cache t1 ip rep w)) ip = Some (as_row t1 ip rep)"
proof -
  have f: "fresh t2 (as_row t1 ip rep)"
    using assms by (simp add: fresh_def as_row_def ttl_seconds_def CACHE_TTL_DAYS_def)
  have i: "ip_address (as_row t1 ip rep) = ip"
    by (simp add: as_row_def)
  show ?thesis
  proof (cases "\<exists>r \<in> set (ip_reputation w). ip_address r = ip")
    case True
    then show ?thesis
      using find_after_update [OF True i f]
      by (simp add: store_in_cache_def getIPReputation_def updateIPReputation_def emit_def Let_def)
  next
    case False
    then show ?thesis
      using find_after_insert [OF False i f]
      by (simp add: store_in_cache_def getIPReputation_def insertIPReputation_def emit_def Let_def)
  qed
qed

lemma lookup_hit:
  "getIPReputation now (ip_reputation w) ip = Some r \<Longrightarrow> ip \<noteq> [] \<Longrightarrow>
   getIPReputationWithCache k p s now (Some ip) w = (Some (Cached r), emit (CacheRead ip) w)"
  by (simp add: getIPReputationWithCache_def Let_def emit_def)

lemma lookup_miss:
  "getIPReputation now (ip_reputation w) ip = None \<Longrightarrow> ip \<noteq> [] \<Longrightarrow>
   getIPReputationWithCache k p s now (Some ip) w =
     (Some (Fetched (fst (fetchFromAbuseIPDB k p s ip (emit (CacheRead ip) w)))),
      store_in_cache now ip (fst (fetchFromAbuseIPDB k p s ip (emit (CacheRead ip) w)))
        (snd (fetchFromAbuseIPDB k p s ip (emit (CacheRead ip) w))))"
  by (simp add: getIPReputationWithCache_def Let_def emit_def split_beta)

lemma fresh_iff: "fresh now r \<longleftrightarrow> now - last_checked r < 604800"
  unfolding fresh_def ttl_seconds_def CACHE_TTL_DAYS_def by linarith




lemma lookup_refresh:
  assumes ip: "ip \<noteq> []"
    and absent: "\<not> (\<exists>r \<in> set (ip_reputation w). ip_address r = ip \<and> now - last_checked r < 604800)"
  shows "\<exists>rep. getIPReputationWithCache k p s now (Some ip) w
            = (Some (Fetched rep),
               store_in_cache now ip rep (snd (fetchFromAbuseIPDB k p s ip (emit (CacheRead ip) w))))
          \<and> rep = fst (fetchFromAbuseIPDB k p s ip (emit (CacheRead ip) w))
          \<and> getIPReputation now (ip_reputation (snd (getIPReputationWithCache k p s now (Some ip) w))) ip
               = Some (as_row now ip rep)"
proof -
  have None: "getIPReputation now (ip_reputation w) ip = None"
    using absent by (simp add: getIPReputation_None fresh_iff)
  show ?thesis
    using lookup_miss [OF None ip] store_then_get [of now now] by simp
qed

lemma digit_table:
  "list_all (\<lambda>k. digit_of (digit_char k) = k \<and> is_digit (digit_char k)) [0..<10]"
  by code_simp

lemma digit_char_props:
  assumes "n < 10"
  shows "digit_of (digit_char n) = n" and "is_digit (digit_char n)"
  using digit_table assms by (auto simp: list_all_iff)

lemma is_digit_props:
  assumes "is_digit c"
  shows "digit_of c < 10" and "c \<noteq> CHR ''.''" and "\<not> is_space c" and "c \<noteq> CHR ''-''"
    and "c \<noteq> CHR ''+''" and "c \<noteq> CHR ''x''" and "c \<noteq> CHR ''X''"
  using assms by (auto simp: is_digit_def digit_of_def is_space_def)

lemma digit_char_eq_iff:
  assumes "n < 10" "m < 10"
  shows "digit_char n = digit_char m \<longleftrightarrow> n = m"
proof
  assume "digit_char n = digit_char m"
  then have "digit_of (digit_char n) = digit_of (digit_char m)" by simp
  then show "n = m" by (simp add: digit_char_props(1) assms)
qed simp

lemma show_nat_digits:
  "show_nat n \<noteq> [] \<and> (\<forall>c \<in> set (show_nat n). is_digit c)
   \<and> foldl (\<lambda>acc c. acc * 10 + digit_of c) 0 (show_nat n) = n"
proof (induction n rule: show_nat.induct)
  case (1 n)
  show ?case
  proof (cases "n < 10")
    case True
    then show ?thesis
      by (subst (1 2 3) show_nat.simps) (auto simp: digit_char_props)
  next
    case False
    have m: "n mod 10 < 10" by simp
    have eq: "show_nat n = show_nat (n div 10) @ [digit_char (n mod 10)]"
      using False by (subst show_nat.simps) simp
    show ?thesis
      using "1.IH" [OF False] digit_char_props [OF m]
      by (auto simp: eq)
  qed
qed

lemma show_nat_ne: "show_nat n \<noteq> []"
  using show_nat_digits [of n] by simp

lemma show_nat_is_digit: "c \<in> set (show_nat n) \<Longrightarrow> is_digit c"
  using show_nat_digits [of n] by simp

lemma show_nat_value: "foldl (\<lambda>acc c. acc * 10 + digit_of c) 0 (show_nat n) = n"
  using show_nat_digits [of n] by simp

lemma show_nat_inj: "show_nat a = show_nat b \<Longrightarrow> a = b"
proof -
  assume eq: "show_nat a = show_nat b"
  have "a = foldl (\<lambda>acc c. acc * 10 + digit_of c) 0 (show_nat a)"
    by (simp only: show_nat_value)
  also have "\<dots> = foldl (\<lambda>acc c. acc * 10 + digit_of c) 0 (show_nat b)"
    by (simp only: eq)
  also have "\<dots> = b"
    by (simp only: show_nat_value)
  finally show "a = b" .
qed

lemma show_nat_no_dot: "CHR ''.'' \<notin> set (show_nat n)"
proof
  assume "CHR ''.'' \<in> set (show_nat n)"
  then have "is_digit CHR ''.''" by (rule show_nat_is_digit)
  then show False by (simp add: is_digit_def)
qed

lemma digits_value_show_nat: "digits_value 10 (show_nat n) = Some n"
proof -
  have "\<forall>c \<in> set (show_nat n). digit_of c < 10"
    using show_nat_is_digit is_digit_props(1) by blast
  then have tw: "takeWhile (\<lambda>c. digit_of c < 10) (show_nat n) = show_nat n"
    by (simp only: takeWhile_eq_all_conv)
  show ?thesis
    unfolding digits_value_def tw Let_def
    by (simp add: show_nat_ne show_nat_value)
qed

lemma prefix_second: "prefix [a, b] s \<Longrightarrow> b \<in> set s"
  by (auto simp: prefix_def)

lemma parse_unsigned_show_nat: "parse_unsigned (show_nat n) = Some n"
proof -
  have x: "\<not> prefix ''0x'' (show_nat n)"
  proof
    assume "prefix ''0x'' (show_nat n)"
    then have "CHR ''x'' \<in> set (show_nat n)" by (rule prefix_second)
    then have "is_digit CHR ''x''" by (rule show_nat_is_digit)
    then show False by (simp add: is_digit_def)
  qed
  have X: "\<not> prefix ''0X'' (show_nat n)"
  proof
    assume "prefix ''0X'' (show_nat n)"
    then have "CHR ''X'' \<in> set (show_nat n)" by (rule prefix_second)
    then have "is_digit CHR ''X''" by (rule show_nat_is_digit)
    then show False by (simp add: is_digit_def)
  qed
  show ?thesis
    using x X by (simp add: parse_unsigned_def startsWith_def digits_value_show_nat)
qed

lemma parseInt_show_nat: "parseInt f (show_nat n) = to_number f (int n)"
proof -
  obtain c cs where s: "show_nat n = c # cs"
    using show_nat_ne [of n] by (cases "show_nat n") auto
  have c: "is_digit c"
    using show_nat_is_digit [of c n] s by simp
  have "dropWhile is_space (show_nat n) = show_nat n"
    using is_digit_props(3) [OF c] by (simp add: s)
  then show ?thesis
    using is_digit_props(4,5) [OF c] parse_unsigned_show_nat [of n]
    by (simp add: parseInt_def signed_def s)
qed

lemma to_number_small: "\<bar>n\<bar> \<le> 2 ^ 53 \<Longrightarrow> to_number f n = Num n"
  by (simp add: to_number_def)

lemma split_on_nonempty: "split_on c s \<noteq> []"
  by (induction s) (auto split: list.splits)

lemma split_on_none: "c \<notin> set s \<Longrightarrow> split_on c s = [s]"
  by (induction s) auto

lemma split_on_app: "c \<notin> set s \<Longrightarrow> split_on c (s @ c # r) = s # split_on c r"
  by (induction s) auto

lemma split_dotted:
  "split_on CHR ''.'' (dotted a b c d) = [show_nat a, show_nat b, show_nat c, show_nat d]"
  by (simp add: dotted_def split_on_app split_on_none show_nat_no_dot)

lemma lastOctet_dotted: "lastOctet rt (dotted a b c d) = to_number (to_double rt) (int d)"
  using show_nat_digits [of d]
  by (simp add: lastOctet_def split_dotted parseInt_show_nat)

lemma prefix_sep:
  "c \<notin> set p \<Longrightarrow> c \<notin> set s \<Longrightarrow> prefix (p @ c # q) (s @ c # r) \<longleftrightarrow> p = s \<and> prefix q r"
proof (induction p arbitrary: s)
  case Nil
  then show ?case by (cases s) auto
next
  case (Cons x p)
  then show ?case by (cases s) auto
qed

lemma show_nat_1: "n < 10 \<Longrightarrow> show_nat n = [digit_char n]"
  by (subst show_nat.simps) simp

lemma show_nat_2: "10 \<le> n \<Longrightarrow> n < 100 \<Longrightarrow> show_nat n = [digit_char (n div 10), digit_char (n mod 10)]"
  by (subst show_nat.simps) (simp add: show_nat_1)

lemma show_nat_3:
  assumes "100 \<le> n" "n < 1000"
  shows "show_nat n = [digit_char (n div 100), digit_char (n div 10 mod 10), digit_char (n mod 10)]"
proof -
  have h: "n div 10 div 10 = n div 100" by arith
  have "show_nat n = show_nat (n div 10) @ [digit_char (n mod 10)]"
    using assms by (subst show_nat.simps) simp
  also have "show_nat (n div 10) = [digit_char (n div 10 div 10), digit_char (n div 10 mod 10)]"
    using assms by (intro show_nat_2) simp_all
  finally show ?thesis by (simp add: h)
qed

lemma digit_char_is_2: "k < 10 \<Longrightarrow> (CHR ''2'' = digit_char k) \<longleftrightarrow> k = 2"
proof -
  assume k: "k < 10"
  have "digit_char 2 = CHR ''2''" by (simp add: digit_char_def)
  then show ?thesis using digit_char_eq_iff [of 2 k] k by auto
qed

lemma starts_with_2:
  assumes "b < 256"
  shows "prefix ''2'' (show_nat b @ r) \<longleftrightarrow> b = 2 \<or> (20 \<le> b \<and> b \<le> 29) \<or> 200 \<le> b"
proof -
  consider "b < 10" | "10 \<le> b" "b < 100" | "100 \<le> b" "b < 1000"
    using assms by linarith
  then show ?thesis
  proof cases
    case 1
    then show ?thesis by (simp add: show_nat_1 digit_char_is_2)
  next
    case 2
    then have "b div 10 < 10" by simp
    then show ?thesis using 2 by (simp add: show_nat_2 digit_char_is_2) arith
  next
    case 3
    then have "b div 100 < 10" by simp
    then show ?thesis using 3 assms by (simp add: show_nat_3 digit_char_is_2) arith
  qed
qed

lemma show_nat_eq_iff: "show_nat a = show_nat b \<longleftrightarrow> a = b"
  using show_nat_inj by blast

lemma literals:
  "''10'' = show_nat 10" "''192'' = show_nat 192" "''168'' = show_nat 168" "''172'' = show_nat 172"
  "''16'' = show_nat 16" "''17'' = show_nat 17" "''18'' = show_nat 18" "''19'' = show_nat 19"
  "''30'' = show_nat 30" "''31'' = show_nat 31"
  by (simp_all add: show_nat_2 show_nat_3 digit_char_def)

lemma dotted_form:
  "dotted a b c d
     = show_nat a @ CHR ''.'' # (show_nat b @ CHR ''.'' # (show_nat c @ CHR ''.'' # show_nat d))"
  by (simp add: dotted_def)

lemma starts_1: "prefix (show_nat x @ ''.'') (dotted a b c d) \<longleftrightarrow> a = x"
proof -
  have "prefix (show_nat x @ CHR ''.'' # []) (dotted a b c d) \<longleftrightarrow> show_nat x = show_nat a \<and> prefix [] (show_nat b @ CHR ''.'' # (show_nat c @ CHR ''.'' # show_nat d))"
    unfolding dotted_form by (rule prefix_sep) (rule show_nat_no_dot)+
  then show ?thesis
    by (auto simp: show_nat_eq_iff)
qed

lemma starts_2:
  "prefix (show_nat x @ ''.'' @ show_nat y @ ''.'') (dotted a b c d) \<longleftrightarrow> a = x \<and> b = y"
proof -
  have 1: "prefix (show_nat x @ CHR ''.'' # (show_nat y @ CHR ''.'' # [])) (dotted a b c d)
      \<longleftrightarrow> show_nat x = show_nat a
          \<and> prefix (show_nat y @ CHR ''.'' # []) (show_nat b @ CHR ''.'' # (show_nat c @ CHR ''.'' # show_nat d))"
    unfolding dotted_form by (rule prefix_sep) (rule show_nat_no_dot)+
  have 2: "prefix (show_nat y @ CHR ''.'' # []) (show_nat b @ CHR ''.'' # (show_nat c @ CHR ''.'' # show_nat d))
      \<longleftrightarrow> show_nat y = show_nat b \<and> prefix [] (show_nat c @ CHR ''.'' # show_nat d)"
    by (rule prefix_sep) (rule show_nat_no_dot)+
  have "show_nat x @ ''.'' @ show_nat y @ ''.'' = show_nat x @ CHR ''.'' # (show_nat y @ CHR ''.'' # [])"
    by simp
  then show ?thesis
    using 1 2 by (auto simp: show_nat_eq_iff)
qed

lemma starts_172_2:
  assumes "b < 256"
  shows "prefix (show_nat 172 @ ''.'' @ ''2'') (dotted a b c d)
     \<longleftrightarrow> a = 172 \<and> (b = 2 \<or> (20 \<le> b \<and> b \<le> 29) \<or> 200 \<le> b)"
proof -
  have 1: "prefix (show_nat 172 @ CHR ''.'' # ''2'') (dotted a b c d)
      \<longleftrightarrow> show_nat 172 = show_nat a
          \<and> prefix ''2'' (show_nat b @ CHR ''.'' # (show_nat c @ CHR ''.'' # show_nat d))"
    unfolding dotted_form by (rule prefix_sep) (rule show_nat_no_dot)+
  have "show_nat 172 @ ''.'' @ ''2'' = show_nat 172 @ CHR ''.'' # ''2''"
    by simp
  then show ?thesis
    using 1 starts_with_2 [OF assms] by (auto simp: show_nat_eq_iff)
qed

lemma isPrivate_dotted:
  assumes "b < 256"
  shows "isPrivate (dotted a b c d) \<longleftrightarrow>
           a = 10 \<or> (a = 192 \<and> b = 168) \<or> (a = 172 \<and> 16 \<le> b \<and> b \<le> 31)
           \<or> (a = 172 \<and> (b = 2 \<or> 200 \<le> b))"
proof -
  have p: "''10.'' = show_nat 10 @ ''.''"
    "''192.168.'' = show_nat 192 @ ''.'' @ show_nat 168 @ ''.''"
    "''172.16.'' = show_nat 172 @ ''.'' @ show_nat 16 @ ''.''"
    "''172.17.'' = show_nat 172 @ ''.'' @ show_nat 17 @ ''.''"
    "''172.18.'' = show_nat 172 @ ''.'' @ show_nat 18 @ ''.''"
    "''172.19.'' = show_nat 172 @ ''.'' @ show_nat 19 @ ''.''"
    "''172.2'' = show_nat 172 @ ''.'' @ ''2''"
    "''172.30.'' = show_nat 172 @ ''.'' @ show_nat 30 @ ''.''"
    "''172.31.'' = show_nat 172 @ ''.'' @ show_nat 31 @ ''.''"
    by (simp_all add: literals [symmetric])
  have "isPrivate (dotted a b c d) \<longleftrightarrow>
      a = 10 \<or> (a = 192 \<and> b = 168) \<or> (a = 172 \<and> b = 16) \<or> (a = 172 \<and> b = 17)
      \<or> (a = 172 \<and> b = 18) \<or> (a = 172 \<and> b = 19)
      \<or> (a = 172 \<and> (b = 2 \<or> (20 \<le> b \<and> b \<le> 29) \<or> 200 \<le> b))
      \<or> (a = 172 \<and> b = 30) \<or> (a = 172 \<and> b = 31)"
    unfolding isPrivate_def startsWith_def p
    by (simp only: starts_1 starts_2 starts_172_2 [OF assms])
  then show ?thesis
    by arith
qed

lemma fetch_failing:
  "failing (p ip) \<Longrightarrow> fst (fetchFromAbuseIPDB k p s ip w) = generateStubReputation s ip"
  by (cases "p ip") (auto simp: fetchFromAbuseIPDB_def fetch_attempt_def split: sum.splits body.splits option.splits)

lemma fetch_no_key:
  "\<not> truthy k \<Longrightarrow> fetchFromAbuseIPDB k p s ip w = (generateStubReputation s ip, w)"
  by (simp add: fetchFromAbuseIPDB_def)

lemma rem_nonneg: "js_rem (Num (int d)) m = Num (int d mod \<bar>m\<bar>)"
  by (cases "d = 0") (simp_all add: js_rem_def)

lemma stub_private:
  "isPrivate ip \<Longrightarrow> abuseScore rt ip = Num 0 \<and> totalReports rt ip = Num 0"
  by (simp add: abuseScore_def totalReports_def)

lemma stub_public:
  assumes "\<not> isPrivate (dotted a b c d)" and "d < 256"
  shows "abuseScore rt (dotted a b c d) =
           (if 200 < d then Num (75 + int d mod 25)
            else if 100 < d then Num (25 + int d mod 25) else Num (int d mod 15))"
    and "totalReports rt (dotted a b c d) =
           (if 200 < d then Num (50 + int d mod 50)
            else if 100 < d then Num (10 + int d mod 20) else Num (int d mod 5))"
proof -
  have l: "lastOctet rt (dotted a b c d) = Num (int d)"
    using assms(2) by (simp add: lastOctet_dotted to_number_small)
  show "abuseScore rt (dotted a b c d) =
           (if 200 < d then Num (75 + int d mod 25)
            else if 100 < d then Num (25 + int d mod 25) else Num (int d mod 15))"
    using assms(1) by (simp add: abuseScore_def l rem_nonneg js_gt_def js_add_def)
  show "totalReports rt (dotted a b c d) =
           (if 200 < d then Num (50 + int d mod 50)
            else if 100 < d then Num (10 + int d mod 20) else Num (int d mod 5))"
    using assms(1) by (simp add: totalReports_def l rem_nonneg js_gt_def js_add_def)
qed

lemma first_truthy_missing: "missing entry ks \<Longrightarrow> first_truthy entry ks d = d"
  by (induction ks) (auto simp: missing_def split: option.splits)

lemma first_truthy_result: "first_truthy entry ks d = d \<or> js_truthy (first_truthy entry ks d)"
  by (induction ks) (auto split: option.splits)

lemma first_truthy_not_null: "d \<noteq> JNull \<Longrightarrow> first_truthy entry ks d \<noteq> JNull"
  using first_truthy_result [of entry ks d] by auto

lemma missing_Cons:
  "missing entry (k # ks) \<longleftrightarrow>
     (case property entry k of None \<Rightarrow> True | Some v \<Rightarrow> \<not> js_truthy v) \<and> missing entry ks"
  by (simp add: missing_def)

lemma first_named_Cons:
  "first_named entry (k # ks) v \<longleftrightarrow>
     (property entry k = Some v \<and> js_truthy v)
     \<or> ((case property entry k of None \<Rightarrow> True | Some x \<Rightarrow> \<not> js_truthy x) \<and> first_named entry ks v)"
proof -
  let ?Q = "\<lambda>xs i. property entry (xs ! i) = Some v \<and> js_truthy v \<and> missing entry (take i xs)"
  have m0: "missing entry []"
    by (simp add: missing_def)
  have a: "first_named entry (k # ks) v \<longleftrightarrow> (\<exists>i. i < Suc (length ks) \<and> ?Q (k # ks) i)"
    by (simp add: first_named_def list_ex_iff Bex_def del: upt_Suc)
  have b: "first_named entry ks v \<longleftrightarrow> (\<exists>i. i < length ks \<and> ?Q ks i)"
    by (simp add: first_named_def list_ex_iff Bex_def del: upt_Suc)
  have c: "(\<exists>i. i < Suc (length ks) \<and> ?Q (k # ks) i)
      \<longleftrightarrow> ?Q (k # ks) 0 \<or> (\<exists>j. j < length ks \<and> ?Q (k # ks) (Suc j))"
    by (auto simp: less_Suc_eq_0_disj)
  show ?thesis
    unfolding a b c by (auto simp: missing_Cons m0)
qed

lemma first_truthy_field: "field_or entry ks d (first_truthy entry ks d)"
proof (induction ks)
  case Nil
  then show ?case by (simp add: field_or_def missing_def)
next
  case (Cons k ks)
  show ?case
  proof (cases "property entry k")
    case None
    then show ?thesis
      using Cons.IH by (simp add: field_or_def missing_Cons first_named_Cons)
  next
    case (Some x)
    then show ?thesis
      using Cons.IH by (simp add: field_or_def missing_Cons first_named_Cons)
  qed
qed

lemma eight_values:
  assumes "length vs = 8"
  shows "vs = [vs ! 0, vs ! 1, vs ! 2, vs ! 3, vs ! 4, vs ! 5, vs ! 6, vs ! 7]"
proof (rule nth_equalityI)
  show "length vs = length [vs ! 0, vs ! 1, vs ! 2, vs ! 3, vs ! 4, vs ! 5, vs ! 6, vs ! 7]"
    using assms by simp
  fix i assume "i < length vs"
  then have "i \<in> {0, 1, 2, 3, 4, 5, 6, 7}"
    using assms by auto
  then show "vs ! i = [vs ! 0, vs ! 1, vs ! 2, vs ! 3, vs ! 4, vs ! 5, vs ! 6, vs ! 7] ! i"
    by auto
qed

lemma insertLog_frame:
  "insertLog binding now n w = Inr w' \<Longrightarrow>
     (\<exists>row. logs w' = logs w @ [row] \<and> binding (arguments n) = Inr (columns_of row))
     \<and> alerts w' = alerts w \<and> ip_reputation w' = ip_reputation w \<and> alert_seq w' = alert_seq w
     \<and> trace w' = trace w"
proof -
  assume a: "insertLog binding now n w = Inr w'"
  then obtain vs t where
    vs: "binding (arguments n) = Inr vs" "length vs = 8" "vs ! 0 = Some t"
    and w': "w' = w\<lparr>logs := logs w @
                          [\<lparr> log_id = log_seq w + 1, timestamp = t, event_type = vs ! 1,
                             username = vs ! 2, source_ip = vs ! 3, destination_ip = vs ! 4,
                             status = vs ! 5, message = vs ! 6, log_raw_data = vs ! 7,
                             created_at = now \<rparr>],
                        log_seq := log_seq w + 1\<rparr>"
    unfolding insertLog_def by (auto split: sum.splits option.splits if_splits)
  have "columns_of \<lparr> log_id = log_seq w + 1, timestamp = t, event_type = vs ! 1,
                             username = vs ! 2, source_ip = vs ! 3, destination_ip = vs ! 4,
                             status = vs ! 5, message = vs ! 6, log_raw_data = vs ! 7,
                             created_at = now \<rparr> = vs"
    using eight_values [OF vs(2)] vs(3) by (simp add: columns_of_def)
  then show ?thesis
    using vs(1) by (simp add: w')
qed

lemma insertLog_any_state:
  "isl (insertLog binding now n w) = isl (insertLog binding now n w2)"
  unfolding insertLog_def
  by (auto split: sum.splits option.splits)

lemma insert_entries_stored:
  "insert_entries rt binding tnow now entries w = Inr w' \<Longrightarrow>
     length (logs w') = length (logs w) + length entries
     \<and> take (length (logs w)) (logs w') = logs w
     \<and> map columns_of (drop (length (logs w)) (logs w')) = map (bound_values rt binding tnow) entries
     \<and> alerts w' = alerts w \<and> ip_reputation w' = ip_reputation w \<and> alert_seq w' = alert_seq w
     \<and> trace w' = trace w"
proof (induction entries arbitrary: w)
  case Nil
  then show ?case by simp
next
  case (Cons entry entries)
  from Cons.prems obtain n w1 where
    n: "normalizeLogEntry rt tnow entry = Inr n" and
    i: "insertLog binding now n w = Inr w1" and
    r: "insert_entries rt binding tnow now entries w1 = Inr w'"
    by (auto split: sum.splits)
  from insertLog_frame [OF i] obtain row where
    row: "logs w1 = logs w @ [row]" "binding (arguments n) = Inr (columns_of row)"
    and fr: "alerts w1 = alerts w" "ip_reputation w1 = ip_reputation w" "alert_seq w1 = alert_seq w"
      "trace w1 = trace w"
    by auto
  have bv: "bound_values rt binding tnow entry = columns_of row"
    by (simp add: bound_values_def n row(2))
  note ih = Cons.IH [OF r]
  have len: "length (logs w') = length (logs w) + length (entry # entries)"
    using ih row by simp
  have tk1: "take (length (logs w) + 1) (logs w') = logs w @ [row]"
    using ih row by simp
  have tk: "take (length (logs w)) (logs w') = logs w"
  proof -
    have "take (length (logs w)) (take (length (logs w) + 1) (logs w')) = logs w"
      unfolding tk1 by simp
    then show ?thesis by (simp add: min_def)
  qed
  have dr: "drop (length (logs w)) (logs w') = row # drop (length (logs w) + 1) (logs w')"
  proof -
    have "logs w' = take (length (logs w) + 1) (logs w') @ drop (length (logs w) + 1) (logs w')"
      by simp
    then have "logs w' = logs w @ row # drop (length (logs w) + 1) (logs w')"
      unfolding tk1 by simp
    then have "drop (length (logs w)) (logs w')
        = drop (length (logs w)) (logs w @ row # drop (length (logs w) + 1) (logs w'))"
      by simp
    then show ?thesis by simp
  qed
  have raw: "map columns_of (drop (length (logs w)) (logs w'))
      = map (bound_values rt binding tnow) (entry # entries)"
    using ih row bv by (simp add: dr)
  show ?case
    using len tk raw ih fr by simp
qed

lemma insert_entries_succeeds_iff:
  "(\<exists>w'. insert_entries rt binding tnow now entries w = Inr w') \<longleftrightarrow> list_all (storable rt binding tnow now) entries"
proof (induction entries arbitrary: w)
  case Nil
  then show ?case by simp
next
  case (Cons entry entries)
  show ?case
  proof (cases "normalizeLogEntry rt tnow entry")
    case (Inl e)
    then show ?thesis by (simp add: storable_def)
  next
    case (Inr n)
    show ?thesis
    proof (cases "insertLog binding now n w")
      case (Inl e)
      then have "isl (insertLog binding now n empty_world)"
        using insertLog_any_state [of binding now n w empty_world] by simp
      then have "\<not> storable rt binding tnow now entry"
        by (auto simp: storable_def Inr split: sum.splits)
      then show ?thesis
        using Inl \<open>normalizeLogEntry rt tnow entry = Inr n\<close> by simp
    next
      case i: (Inr w1)
      then have "\<not> isl (insertLog binding now n empty_world)"
        using insertLog_any_state [of binding now n w empty_world] by simp
      then have "storable rt binding tnow now entry"
        by (auto simp: storable_def Inr split: sum.splits)
      then show ?thesis
        using i Inr Cons.IH [of w1] by simp
    qed
  qed
qed

lemma login_normalized:
  "normalizeLogEntry sample_rt ''2025-10-15T12:00:00.000Z'' login_entry
     = Inr \<lparr> n_timestamp = JStr ''2025-10-15T02:00:00Z'', n_event_type = JStr ''unknown'',
              n_username = JStr ''alice'', n_source_ip = JStr ''203.0.113.45'',
              n_destination_ip = JNull, n_status = JStr ''success'', n_message = JNull,
              n_raw_data = ''{}'' \<rparr>"
  by (simp add: normalizeLogEntry_def login_entry_def sample_rt_def sample_stringify_def)

lemma listed_normalized:
  "normalizeLogEntry sample_rt ''2025-10-15T12:00:00.000Z'' listed_entry
     = Inr \<lparr> n_timestamp = JArr [JStr ''2025-10-20T10:00:00Z''], n_event_type = JStr ''unknown'',
              n_username = JNull, n_source_ip = JNull,
              n_destination_ip = JNull, n_status = JStr ''failed'', n_message = JNull,
              n_raw_data = ''{}'' \<rparr>"
  by (simp add: normalizeLogEntry_def listed_entry_def sample_rt_def sample_stringify_def)

lemma unbindable_normalized:
  "normalizeLogEntry sample_rt ''2025-10-15T12:00:00.000Z'' unbindable_entry
     = Inr \<lparr> n_timestamp = JBool True, n_event_type = JStr ''unknown'',
              n_username = JNull, n_source_ip = JNull,
              n_destination_ip = JNull, n_status = JNull, n_message = JNull,
              n_raw_data = ''{}'' \<rparr>"
  by (simp add: normalizeLogEntry_def unbindable_entry_def sample_rt_def sample_stringify_def)

lemma login_bound:
  "bound_values sample_rt sample_binding ''2025-10-15T12:00:00.000Z'' login_entry
     = [Some ''2025-10-15T02:00:00Z'', Some ''unknown'', Some ''alice'', Some ''203.0.113.45'',
        None, Some ''success'', None, Some ''{}'']"
  by (simp add: bound_values_def login_normalized arguments_def sample_binding_def)

lemma listed_bound:
  "bound_values sample_rt sample_binding ''2025-10-15T12:00:00.000Z'' listed_entry
     = [Some ''2025-10-20T10:00:00Z'', Some ''unknown'', None, None,
        None, Some ''failed'', None, Some ''{}'']"
  by (simp add: bound_values_def listed_normalized arguments_def sample_binding_def)

lemma sample_storable:
  "storable sample_rt sample_binding ''2025-10-15T12:00:00.000Z'' 1000 login_entry"
  "storable sample_rt sample_binding ''2025-10-15T12:00:00.000Z'' 1000 listed_entry"
  "\<not> storable sample_rt sample_binding ''2025-10-15T12:00:00.000Z'' 1000 unbindable_entry"
  "\<not> storable sample_rt sample_binding ''2025-10-15T12:00:00.000Z'' 1000 JNull"
proof -
  show "storable sample_rt sample_binding ''2025-10-15T12:00:00.000Z'' 1000 login_entry"
    by (simp add: storable_def login_normalized insertLog_def arguments_def sample_binding_def)
  show "storable sample_rt sample_binding ''2025-10-15T12:00:00.000Z'' 1000 listed_entry"
    by (simp add: storable_def listed_normalized insertLog_def arguments_def sample_binding_def)
  show "\<not> storable sample_rt sample_binding ''2025-10-15T12:00:00.000Z'' 1000 unbindable_entry"
    by (simp add: storable_def unbindable_normalized insertLog_def arguments_def sample_binding_def)
  show "\<not> storable sample_rt sample_binding ''2025-10-15T12:00:00.000Z'' 1000 JNull"
    by (simp add: storable_def normalizeLogEntry_def)
qed

lemma insertAlert_frame:
  "logs (snd (insertAlert now a b c d e f g h i j w)) = logs w"
  "ip_reputation (snd (insertAlert now a b c d e f g h i j w)) = ip_reputation w"
  "trace (snd (insertAlert now a b c d e f g h i j w)) = trace w"
  "alert_seq (snd (insertAlert now a b c d e f g h i j w)) = alert_seq w + 1"
  "fst (insertAlert now a b c d e f g h i j w) = alert_seq w + 1"
  by (simp_all add: insertAlert_def Let_def)

lemma off_hours_alerts_spec:
  "fst (off_hours_alerts now rs found w)
     = found @ map (\<lambda>(i, r). \<lparr> detected_id = i, detected_type = ''off_hours'', result = r \<rparr>)
                (enumerate (alert_seq w + 1) rs)
   \<and> alerts (snd (off_hours_alerts now rs found w))
     = alerts w @ map (\<lambda>(i, r).
          \<lparr> alert_id = i, alert_type = ''off_hours_access'', severity = ''medium'',
            title = ''Off-Hours Access by '' @ or_text (oh_username r) ''Unknown User'',
            description = ''Successful login detected outside business hours from IP ''
                            @ template_text (oh_source_ip r),
            affected_entity = oh_username r, alert_source_ip = oh_source_ip r,
            event_count = 1, first_seen = oh_timestamp r, last_seen = oh_timestamp r,
            alert_status = ''open'', ai_summary = None, alert_created_at = now \<rparr>)
          (enumerate (alert_seq w + 1) rs)
   \<and> alert_seq (snd (off_hours_alerts now rs found w)) = alert_seq w + length rs
   \<and> logs (snd (off_hours_alerts now rs found w)) = logs w
   \<and> ip_reputation (snd (off_hours_alerts now rs found w)) = ip_reputation w
   \<and> trace (snd (off_hours_alerts now rs found w)) = trace w"
proof (induction rs arbitrary: found w)
  case Nil
  then show ?case by simp
next
  case (Cons r rs)
  show ?case
    by (simp add: split_beta Let_def Cons.IH insertAlert_def)
qed

lemma map_enumerate_const:
  "map (\<lambda>x. f (snd x)) (enumerate n rs) = map f rs"
  by (induction rs arbitrary: n) simp_all

lemma ip_alerts_spec:
  "fst (ip_alerts now tw rs found w) = found @ map ip_found (enumerate (alert_seq w + 1) rs)
   \<and> alerts (snd (ip_alerts now tw rs found w))
       = alerts w @ map (ip_alert_row now tw) (enumerate (alert_seq w + 1) rs)
   \<and> alert_seq (snd (ip_alerts now tw rs found w)) = alert_seq w + length rs
   \<and> logs (snd (ip_alerts now tw rs found w)) = logs w
   \<and> ip_reputation (snd (ip_alerts now tw rs found w)) = ip_reputation w
   \<and> trace (snd (ip_alerts now tw rs found w)) = trace w"
proof (induction rs arbitrary: found w)
  case Nil
  then show ?case by simp
next
  case (Cons r rs)
  show ?case
    by (simp add: split_beta Let_def Cons.IH insertAlert_def ip_found_def ip_alert_row_def)
qed

lemma user_alerts_spec:
  "fst (user_alerts now tw rs found w) = found @ map user_found (enumerate (alert_seq w + 1) rs)
   \<and> alerts (snd (user_alerts now tw rs found w))
       = alerts w @ map (user_alert_row now tw) (enumerate (alert_seq w + 1) rs)
   \<and> alert_seq (snd (user_alerts now tw rs found w)) = alert_seq w + length rs
   \<and> logs (snd (user_alerts now tw rs found w)) = logs w
   \<and> ip_reputation (snd (user_alerts now tw rs found w)) = ip_reputation w
   \<and> trace (snd (user_alerts now tw rs found w)) = trace w"
proof (induction rs arbitrary: found w)
  case Nil
  then show ?case by simp
next
  case (Cons r rs)
  show ?case
    by (simp add: split_beta Let_def Cons.IH insertAlert_def user_found_def user_alert_row_def)
qed

lemma detectBruteForce_spec:
  "fst (detectBruteForce T bare arrange now w)
     = map ip_found (enumerate (alert_seq w + 1) (ipQuery T arrange now 300 (logs w) 5))
       @ map user_found (enumerate (alert_seq w + length (ipQuery T arrange now 300 (logs w) 5) + 1)
                           (userQuery T bare arrange now 300 (logs w) 5))
   \<and> alerts (snd (detectBruteForce T bare arrange now w))
     = alerts w @ map (ip_alert_row now 300) (enumerate (alert_seq w + 1) (ipQuery T arrange now 300 (logs w) 5))
       @ map (user_alert_row now 300)
           (enumerate (alert_seq w + length (ipQuery T arrange now 300 (logs w) 5) + 1)
              (userQuery T bare arrange now 300 (logs w) 5))
   \<and> logs (snd (detectBruteForce T bare arrange now w)) = logs w
   \<and> ip_reputation (snd (detectBruteForce T bare arrange now w)) = ip_reputation w
   \<and> trace (snd (detectBruteForce T bare arrange now w)) = trace w"
  by (simp add: detectBruteForce_def Let_def split_beta ip_alerts_spec user_alerts_spec)



lemma set_map_filter_Some:
  "set (List.map_filter f xs) = {y. \<exists>x \<in> set xs. f x = Some y}"
  by (induction xs) (auto simp: map_filter_simps split: option.splits)

lemma reorders_set: "reorders arrange \<Longrightarrow> set (arrange xs) = set xs"
  unfolding reorders_def by (metis mset_eq_setD)













lemma reorders_sort: "reorders sort"
  by (simp add: reorders_def)



lemma detectOffHoursAccess_frame:
  "logs (snd (detectOffHoursAccess T now w)) = logs w"
  "ip_reputation (snd (detectOffHoursAccess T now w)) = ip_reputation w"
  "trace (snd (detectOffHoursAccess T now w)) = trace w"
  by (simp_all add: detectOffHoursAccess_def off_hours_alerts_spec)

lemma off_hours_columns:
  "map alert_columns (new_alerts w (snd (detectOffHoursAccess T now w)))
     = map (\<lambda>r. (''off_hours_access'', ''medium'', 1, oh_timestamp r, oh_timestamp r,
                  oh_username r, oh_source_ip r))
         (offHoursQuery T now (logs w) 9 18)"
proof -
  define rs where "rs = offHoursQuery T now (logs w) 9 18"
  let ?k = "\<lambda>r. (''off_hours_access'', ''medium'', 1::nat, oh_timestamp r, oh_timestamp r,
                  oh_username r, oh_source_ip r)"
  have d: "detectOffHoursAccess T now w = off_hours_alerts now rs [] w"
    by (simp add: detectOffHoursAccess_def rs_def)
  have "map alert_columns (new_alerts w (snd (off_hours_alerts now rs [] w)))
     = map (\<lambda>x. ?k (snd x)) (enumerate (alert_seq w + 1) rs)"
    by (simp add: new_alerts_def off_hours_alerts_spec [of now rs "[]" w] split_beta o_def
        alert_columns_def)
  also have "\<dots> = map ?k rs"
    by (rule map_enumerate_const)
  finally show ?thesis
    unfolding d rs_def .
qed

lemma geo_alerts_frame:
  "logs (snd (geo_alerts now rs found w)) = logs w
   \<and> ip_reputation (snd (geo_alerts now rs found w)) = ip_reputation w
   \<and> trace (snd (geo_alerts now rs found w)) = trace w"
  by (induction rs arbitrary: found w) (simp_all add: split_beta Let_def insertAlert_frame)

lemma geo_ranges_frame:
  "logs (snd (geo_ranges T bare arrange now ranges found w)) = logs w
   \<and> ip_reputation (snd (geo_ranges T bare arrange now ranges found w)) = ip_reputation w
   \<and> trace (snd (geo_ranges T bare arrange now ranges found w)) = trace w"
  by (induction ranges arbitrary: found w) (simp_all add: split_beta Let_def geo_alerts_frame)

lemma detectGeoAnomalies_frame:
  "logs (snd (detectGeoAnomalies T bare arrange now w)) = logs w"
  "ip_reputation (snd (detectGeoAnomalies T bare arrange now w)) = ip_reputation w"
  "trace (snd (detectGeoAnomalies T bare arrange now w)) = trace w"
  by (simp_all add: detectGeoAnomalies_def geo_ranges_frame)

lemma detectBruteForce_frame:
  "logs (snd (detectBruteForce T bare arrange now w)) = logs w"
  "ip_reputation (snd (detectBruteForce T bare arrange now w)) = ip_reputation w"
  "trace (snd (detectBruteForce T bare arrange now w)) = trace w"
  by (simp_all add: detectBruteForce_spec)

lemma store_frame:
  "logs (store_in_cache now ip rep w) = logs w"
  "alerts (store_in_cache now ip rep w) = alerts w"
  "alert_seq (store_in_cache now ip rep w) = alert_seq w"
  by (simp_all add: store_in_cache_def emit_def Let_def)

lemma lookup_frame:
  "logs (snd (getIPReputationWithCache k p s now ipAddress w)) = logs w"
  "alerts (snd (getIPReputationWithCache k p s now ipAddress w)) = alerts w"
  "alert_seq (snd (getIPReputationWithCache k p s now ipAddress w)) = alert_seq w"
  by (simp_all add: getIPReputationWithCache_def Let_def split_beta emit_def store_frame fetch_tables
      split: option.splits)

lemma lookup_fallback:
  assumes "ip \<noteq> []" "\<not> truthy k \<or> failing (p ip)"
  shows "fst (getIPReputationWithCache k p s now (Some ip) w)
           = Some (fallback_answer s now (ip_reputation w) ip)"
proof (cases "getIPReputation now (ip_reputation w) ip")
  case None
  have "fst (fetchFromAbuseIPDB k p s ip (emit (CacheRead ip) w)) = generateStubReputation s ip"
    using assms(2) fetch_failing fetch_no_key by (metis fst_conv)
  then show ?thesis
    using lookup_miss [OF None assms(1), of k p s] by (simp add: fallback_answer_def None)
next
  case (Some r)
  then show ?thesis
    using lookup_hit [OF Some assms(1), of k p s] by (simp add: fallback_answer_def)
qed

lemma find_other_update:
  assumes "ip' \<noteq> ip" "ip_address R = ip"
  shows "find (\<lambda>r. ip_address r = ip' \<and> fresh now r) (map (\<lambda>r. if ip_address r = ip then R else r) tbl)
           = find (\<lambda>r. ip_address r = ip' \<and> fresh now r) tbl"
  using assms by (induction tbl) auto

lemma find_other_insert:
  assumes "ip' \<noteq> ip" "ip_address R = ip"
  shows "find (\<lambda>r. ip_address r = ip' \<and> fresh now r) (tbl @ [R])
           = find (\<lambda>r. ip_address r = ip' \<and> fresh now r) tbl"
  using assms by (induction tbl) auto

lemma store_other:
  "ip' \<noteq> ip \<Longrightarrow>
   getIPReputation now (ip_reputation (store_in_cache t ip rep w)) ip' = getIPReputation now (ip_reputation w) ip'"
  by (simp add: store_in_cache_def getIPReputation_def updateIPReputation_def insertIPReputation_def
      emit_def Let_def find_other_update find_other_insert as_row_def)

lemma lookup_other:
  "ip' \<noteq> ip \<Longrightarrow>
   getIPReputation now (ip_reputation (snd (getIPReputationWithCache k p s t (Some ip) w))) ip'
     = getIPReputation now (ip_reputation w) ip'"
  by (simp add: getIPReputationWithCache_def Let_def split_beta emit_def store_other fetch_tables
      split: option.splits)

lemma enrich_loop_fallback:
  assumes "distinct ips" "[] \<notin> set ips" "\<forall>ip \<in> set ips. \<not> truthy k \<or> failing (p ip)"
  shows "fst (enrich_loop k p s tm ips [] w)
           = map (\<lambda>ip. (ip, Some (fallback_answer s (tm ip) (ip_reputation w) ip))) ips
         \<and> logs (snd (enrich_loop k p s tm ips [] w)) = logs w
         \<and> alerts (snd (enrich_loop k p s tm ips [] w)) = alerts w
         \<and> alert_seq (snd (enrich_loop k p s tm ips [] w)) = alert_seq w"
  using assms
proof (induction ips arbitrary: w)
  case Nil
  then show ?case by simp
next
  case (Cons ip ips)
  let ?l = "getIPReputationWithCache k p s (tm ip) (Some ip) w"
  let ?w2 = "if truthy k then emit (Sleep 250) (snd ?l) else snd ?l"
  have ip: "ip \<noteq> []" "\<not> truthy k \<or> failing (p ip)" and rest: "ip \<notin> set ips"
    using Cons.prems by auto
  have tbl: "ip_reputation ?w2 = ip_reputation (snd ?l)" "logs ?w2 = logs w" "alerts ?w2 = alerts w"
    "alert_seq ?w2 = alert_seq w"
    by (simp_all add: emit_def lookup_frame)
  have same: "fallback_answer s (tm ip') (ip_reputation ?w2) ip' = fallback_answer s (tm ip') (ip_reputation w) ip'"
    if "ip' \<in> set ips" for ip'
  proof -
    from that rest have "ip' \<noteq> ip" by auto
    then show ?thesis
      unfolding tbl fallback_answer_def by (simp add: lookup_other)
  qed
  have ih: "fst (enrich_loop k p s tm ips [] ?w2)
           = map (\<lambda>ip. (ip, Some (fallback_answer s (tm ip) (ip_reputation ?w2) ip))) ips
         \<and> logs (snd (enrich_loop k p s tm ips [] ?w2)) = logs ?w2
         \<and> alerts (snd (enrich_loop k p s tm ips [] ?w2)) = alerts ?w2
         \<and> alert_seq (snd (enrich_loop k p s tm ips [] ?w2)) = alert_seq ?w2"
    using Cons.prems by (intro Cons.IH) auto
  have m: "map (\<lambda>ip. (ip, Some (fallback_answer s (tm ip) (ip_reputation ?w2) ip))) ips
      = map (\<lambda>ip. (ip, Some (fallback_answer s (tm ip) (ip_reputation w) ip))) ips"
    using same by (intro map_cong) auto
  from ih have ih2: "fst (enrich_loop k p s tm ips [] ?w2)
           = map (\<lambda>ip. (ip, Some (fallback_answer s (tm ip) (ip_reputation w) ip))) ips
         \<and> logs (snd (enrich_loop k p s tm ips [] ?w2)) = logs w
         \<and> alerts (snd (enrich_loop k p s tm ips [] ?w2)) = alerts w
         \<and> alert_seq (snd (enrich_loop k p s tm ips [] ?w2)) = alert_seq w"
    unfolding m tbl(2-4) .
  have first: "fst ?l = Some (fallback_answer s (tm ip) (ip_reputation w) ip)"
    by (rule lookup_fallback [where ip = ip and k = k and p = p and s = s and now = "tm ip" and w = w, OF ip])
  show ?case
    unfolding enrich_loop_Cons Let_def
    using ih2 first by simp
qed

lemma unique_fold_distinct_id:
  "distinct (acc @ xs) \<Longrightarrow> fold (\<lambda>x acc. if x \<in> set acc then acc else acc @ [x]) xs acc = acc @ xs"
  by (induction xs arbitrary: acc) auto

lemma unique_distinct: "distinct xs \<Longrightarrow> unique xs = xs"
  using unique_fold_distinct_id [of "[]" xs] by (simp add: unique_def)

lemma truthy_only_Some: "truthy_only (map Some ips) = filter (\<lambda>ip. ip \<noteq> []) ips"
  by (induction ips) auto

lemma set_entry_order: "set (entry_order ks) = set ks - {''__proto__''}"
  by (auto simp: entry_order_def Let_def)

lemma distinct_entry_order: "distinct ks \<Longrightarrow> distinct (entry_order ks)"
  by (auto simp: entry_order_def Let_def)

lemma map_of_graph:
  "map_of (map (\<lambda>k. (k, f k)) ks) k = (if k \<in> set ks then Some (f k) else None)"
  by (induction ks) auto

lemma Object_entries_graph:
  assumes "distinct ks"
  shows "Object_entries (map (\<lambda>k. (k, f k)) ks) = map (\<lambda>k. (k, f k)) (entry_order ks)"
proof -
  have keys: "unique (map fst (map (\<lambda>k. (k, f k)) ks)) = ks"
    using assms by (simp add: o_def unique_distinct)
  have val: "the (map_of (rev (map (\<lambda>k. (k, f k)) ks)) k) = f k" if "k \<in> set (entry_order ks)" for k
  proof -
    from that have "k \<in> set ks"
      by (simp add: set_entry_order)
    then show ?thesis
      by (simp add: rev_map map_of_graph)
  qed
  show ?thesis
    unfolding Object_entries_def keys using val by (intro map_cong) auto
qed

lemma enrichIPsBatch_fallback:
  assumes "\<forall>ip. \<not> truthy k \<or> failing (p ip)"
  shows "fst (enrichIPsBatch k p s tm (map Some ips) w)
           = map (\<lambda>ip. (ip, Some (fallback_answer s (tm ip) (ip_reputation w) ip)))
               (unique (filter (\<lambda>ip. ip \<noteq> []) ips))
         \<and> logs (snd (enrichIPsBatch k p s tm (map Some ips) w)) = logs w
         \<and> alerts (snd (enrichIPsBatch k p s tm (map Some ips) w)) = alerts w
         \<and> alert_seq (snd (enrichIPsBatch k p s tm (map Some ips) w)) = alert_seq w"
proof -
  let ?ips = "unique (filter (\<lambda>ip. ip \<noteq> []) ips)"
  have d: "distinct ?ips"
    by (rule distinct_unique)
  have u: "uniqueIPs (map Some ips) = ?ips"
    by (simp add: uniqueIPs_def truthy_only_Some)
  have n: "[] \<notin> set ?ips"
    by (simp add: set_unique)
  have f: "\<forall>ip \<in> set ?ips. \<not> truthy k \<or> failing (p ip)"
    using assms by blast
  show ?thesis
    unfolding enrichIPsBatch_def u
    using enrich_loop_fallback [OF d n f, of s tm w] by simp
qed

lemma seen_within_iff:
  "seen_within T now tbl ip \<longleftrightarrow> filter (\<lambda>l. source_ip l = Some ip \<and> newer_than T now 86400 l) tbl \<noteq> []"
  by (auto simp: seen_within_def list_ex_iff filter_empty_conv)

lemma high_risk_alerts_raise:
  assumes "high_risk res" "\<not> seen_within T (tm ip) (logs w) ip"
  shows "high_risk_alerts T tm ((ip, Some res) # reps) found w = (Inl ConstraintError, w)"
  using assms by (simp add: high_risk_def seen_within_iff activityQuery_def Let_def)

lemma high_risk_alerts_spec:
  assumes "\<forall>x \<in> set reps. (case snd x of None \<Rightarrow> False | Some res \<Rightarrow> high_risk res)
               \<longrightarrow> seen_within T (tm (fst x)) (logs w) (fst x)"
  shows "\<exists>found' w'. high_risk_alerts T tm reps found w = (Inr found', w')
           \<and> map (\<lambda>d. hr_ip (result d)) found'
               = map (\<lambda>d. hr_ip (result d)) found
                 @ map fst (filter (\<lambda>x. case snd x of None \<Rightarrow> False | Some res \<Rightarrow> high_risk res) reps)
           \<and> logs w' = logs w"
  using assms
proof (induction reps arbitrary: found w)
  case Nil
  then show ?case by simp
next
  case (Cons x reps)
  obtain ip r where x: "x = (ip, r)" by (cases x)
  have rest: "\<forall>x \<in> set reps. (case snd x of None \<Rightarrow> False | Some res \<Rightarrow> high_risk res)
               \<longrightarrow> seen_within T (tm (fst x)) (logs w) (fst x)"
    using Cons.prems by auto
  show ?case
  proof (cases r)
    case None
    then show ?thesis
      using Cons.IH [OF rest, of found] by (simp add: x)
  next
    case (Some res)
    show ?thesis
    proof (cases "high_risk res")
      case False
      then show ?thesis
        using Cons.IH [OF rest, of found] by (auto simp: x Some high_risk_def)
    next
      case True
      have seen: "seen_within T (tm ip) (logs w) ip"
        using Cons.prems True by (simp add: x Some)
      let ?rows = "filter (\<lambda>l. source_ip l = Some ip \<and> newer_than T (tm ip) 86400 l) (logs w)"
      have ne: "?rows \<noteq> []"
        using seen by (simp add: seen_within_iff)
      have act: "act_first_seen (activityQuery T (tm ip) (logs w) ip) = Some (MIN_timestamp ?rows)"
        "act_last_seen (activityQuery T (tm ip) (logs w) ip) = Some (MAX_timestamp ?rows)"
        using ne by (simp_all add: activityQuery_def Let_def)
      define w1 where "w1 = snd (insertAlert (tm ip) ''high_risk_ip''
          (if at_least (score_of res) 75 then ''critical'' else ''high'')
          (''High-Risk IP Detected: '' @ ip)
          (''IP '' @ ip @ '' has an abuse confidence score of ''
             @ number_text (score_of res) @ ''% (''
             @ number_text (reports_of res) @ '' reports). Country: ''
             @ or_text (country_of res) ''Unknown'' @ ''. Usage: ''
             @ or_text (usage_of res) ''Unknown'' @ ''. Activity count: ''
             @ show_nat (act_count (activityQuery T (tm ip) (logs w) ip)) @ '' events.'')
          (Some ip) (Some ip) (act_count (activityQuery T (tm ip) (logs w) ip))
          (MIN_timestamp ?rows) (MAX_timestamp ?rows) None w)"
      have lw1: "logs w1 = logs w"
        by (simp add: w1_def insertAlert_frame)
      have rest1: "\<forall>x \<in> set reps. (case snd x of None \<Rightarrow> False | Some res \<Rightarrow> high_risk res)
               \<longrightarrow> seen_within T (tm (fst x)) (logs w1) (fst x)"
        using rest by (simp add: lw1)
      define d where "d = \<lparr> detected_id = alert_seq w + 1, detected_type = ''high_risk_ip'',
          result = \<lparr> hr_ip = ip, abuse_score = score_of res,
                     risk_level = getRiskLevel (score_of res),
                     hr_activity = activityQuery T (tm ip) (logs w) ip \<rparr> \<rparr>"
      have step: "high_risk_alerts T tm (x # reps) found w = high_risk_alerts T tm reps (found @ [d]) w1"
        using True
        by (simp add: x Some high_risk_def act Let_def split_beta w1_def d_def insertAlert_frame)
      from Cons.IH [OF rest1, of "found @ [d]"] obtain found' w' where
        r: "high_risk_alerts T tm reps (found @ [d]) w1 = (Inr found', w')"
        "map (\<lambda>d. hr_ip (result d)) found'
               = map (\<lambda>d. hr_ip (result d)) (found @ [d])
                 @ map fst (filter (\<lambda>x. case snd x of None \<Rightarrow> False | Some res \<Rightarrow> high_risk res) reps)"
        "logs w' = logs w1"
        by blast
      show ?thesis
        unfolding step using r True by (simp add: x Some lw1 d_def)
    qed
  qed
qed

text \<open>The rule, with a provider that cannot be used, as the loop over the candidates.\<close>

lemma detectHighRiskIPs_fallback:
  assumes "\<forall>ip. \<not> truthy k \<or> failing (p ip)"
  shows "\<exists>w1. detectHighRiskIPs T arrange k p s c w
             = high_risk_alerts T (activity_at c)
                 (map (\<lambda>ip. (ip, Some (fallback_answer s (lookup_at c ip) (ip_reputation w) ip)))
                    (candidates T arrange (scan_at c) (logs w))) [] w1
           \<and> logs w1 = logs w"
proof (cases "recentIPs T arrange (scan_at c) (logs w) = []")
  case True
  have "candidates T arrange (scan_at c) (logs w) = []"
    by (simp add: candidates_def True unique_def entry_order_def)
  then show ?thesis
    using True by (simp add: detectHighRiskIPs_def)
next
  case False
  let ?ips = "recentIPs T arrange (scan_at c) (logs w)"
  let ?b = "enrichIPsBatch k p s (lookup_at c) (map Some ?ips) w"
  note b = enrichIPsBatch_fallback [OF assms, of s "lookup_at c" ?ips w]
  have run: "detectHighRiskIPs T arrange k p s c w
      = high_risk_alerts T (activity_at c) (Object_entries (fst ?b)) [] (snd ?b)"
    using False by (simp add: detectHighRiskIPs_def Let_def split_beta)
  have oe: "Object_entries (fst ?b)
      = map (\<lambda>ip. (ip, Some (fallback_answer s (lookup_at c ip) (ip_reputation w) ip)))
          (candidates T arrange (scan_at c) (logs w))"
    unfolding b [THEN conjunct1] candidates_def
    by (rule Object_entries_graph) (rule distinct_unique)
  show ?thesis
    unfolding run oe using b by blast
qed

lemma flagged_filter:
  "map fst (filter (\<lambda>x. case snd x of None \<Rightarrow> False | Some res \<Rightarrow> high_risk res)
      (map (\<lambda>ip. (ip, Some (fallback_answer s (lookup_at c ip) (ip_reputation w) ip)))
         (candidates T arrange (scan_at c) (logs w))))
   = flagged T arrange s c w"
  by (simp add: flagged_def filter_map o_def)

lemma detectHighRiskIPs_completes:
  assumes fail: "\<forall>ip. \<not> truthy k \<or> failing (p ip)"
    and seen: "\<forall>ip \<in> set (flagged T arrange s c w). seen_within T (activity_at c ip) (logs w) ip"
  shows "\<exists>found w'. detectHighRiskIPs T arrange k p s c w = (Inr found, w')
           \<and> map (\<lambda>d. hr_ip (result d)) found = flagged T arrange s c w"
proof -
  let ?reps = "map (\<lambda>ip. (ip, Some (fallback_answer s (lookup_at c ip) (ip_reputation w) ip)))
                    (candidates T arrange (scan_at c) (logs w))"
  from detectHighRiskIPs_fallback [OF fail, of T arrange s c w] obtain w1 where
    run: "detectHighRiskIPs T arrange k p s c w = high_risk_alerts T (activity_at c) ?reps [] w1"
    and l: "logs w1 = logs w"
    by blast
  have ok: "\<forall>x \<in> set ?reps. (case snd x of None \<Rightarrow> False | Some res \<Rightarrow> high_risk res)
               \<longrightarrow> seen_within T (activity_at c (fst x)) (logs w1) (fst x)"
    using seen unfolding l by (auto simp: flagged_def)
  from high_risk_alerts_spec [OF ok, of "[]"] obtain found w' where
    r: "high_risk_alerts T (activity_at c) ?reps [] w1 = (Inr found, w')"
    "map (\<lambda>d. hr_ip (result d)) found
       = map fst (filter (\<lambda>x. case snd x of None \<Rightarrow> False | Some res \<Rightarrow> high_risk res) ?reps)"
    by auto
  show ?thesis
    using r run unfolding flagged_filter by simp
qed

lemma runAllDetections_fallback:
  assumes fail: "\<forall>ip. \<not> truthy k \<or> failing (p ip)"
    and seen: "\<forall>ip \<in> set (flagged T arrange s c w). seen_within T (activity_at c ip) (logs w) ip"
  shows "\<exists>res w'. runAllDetections T bare arrange k p s now c w = (Inr res, w')
      \<and> brute_force res = fst (detectBruteForce T bare arrange now w)
      \<and> off_hours_found res
          = fst (detectOffHoursAccess T now (snd (detectBruteForce T bare arrange now w)))
      \<and> geo_anomaly res
          = fst (detectGeoAnomalies T bare arrange now
                   (snd (detectOffHoursAccess T now (snd (detectBruteForce T bare arrange now w)))))
      \<and> map (\<lambda>d. hr_ip (result d)) (high_risk_ip res) = flagged T arrange s c w
      \<and> total res = length (brute_force res) + length (off_hours_found res)
                     + length (geo_anomaly res) + length (high_risk_ip res)"
proof -
  let ?w3 = "snd (detectGeoAnomalies T bare arrange now
                   (snd (detectOffHoursAccess T now (snd (detectBruteForce T bare arrange now w)))))"
  have fr: "logs ?w3 = logs w" "ip_reputation ?w3 = ip_reputation w"
    by (simp_all add: detectGeoAnomalies_frame detectOffHoursAccess_frame detectBruteForce_frame)
  have fl: "flagged T arrange s c ?w3 = flagged T arrange s c w"
    by (simp add: flagged_def fr)
  have seen3: "\<forall>ip \<in> set (flagged T arrange s c ?w3). seen_within T (activity_at c ip) (logs ?w3) ip"
    using seen unfolding fl fr .
  from detectHighRiskIPs_completes [OF fail seen3] obtain found w' where
    h: "detectHighRiskIPs T arrange k p s c ?w3 = (Inr found, w')"
    "map (\<lambda>d. hr_ip (result d)) found = flagged T arrange s c w"
    unfolding fl by blast
  show ?thesis
    by (simp add: runAllDetections_def Let_def split_beta h)
qed

lemma set_candidates:
  assumes "reorders arrange"
  shows "set (candidates T arrange now tbl)
     = {ip. ip \<noteq> [] \<and> ip \<noteq> ''__proto__'' \<and> seen_within T now tbl ip}"
    and "distinct (candidates T arrange now tbl)"
proof -
  have "set (recentIPs T arrange now tbl) = {ip. seen_within T now tbl ip}"
    by (auto simp: recentIPs_def reorders_set [OF assms] set_unique set_map_filter_Some
        seen_within_def list_ex_iff)
  then show "set (candidates T arrange now tbl)
     = {ip. ip \<noteq> [] \<and> ip \<noteq> ''__proto__'' \<and> seen_within T now tbl ip}"
    by (auto simp: candidates_def set_entry_order set_unique)
  show "distinct (candidates T arrange now tbl)"
    unfolding candidates_def by (intro distinct_entry_order distinct_unique)
qed

lemma unreachable_fails: "\<forall>ip. \<not> truthy k \<or> failing (unreachable_provider ip)"
  by (simp add: unreachable_provider_def)

lemma attack_candidates:
  "candidates sample_time sort 1760954460 (logs attack_world) = [''203.0.113.250'']"
  "candidates sample_time sort 1761040799 (logs attack_world) = [''203.0.113.250'']"
  by (simp_all add: candidates_def recentIPs_def attack_world_def empty_world_def sample_log_def
      sample_time_def newer_than_def unique_def map_filter_simps entry_order_def array_index_def
      is_digit_def)

lemma attack_stub:
  "fallback_answer sample_rt t (ip_reputation attack_world) ''203.0.113.250''
     = Fetched (generateStubReputation sample_rt ''203.0.113.250'')"
  "high_risk (Fetched (generateStubReputation sample_rt ''203.0.113.250''))"
proof -
  show "fallback_answer sample_rt t (ip_reputation attack_world) ''203.0.113.250''
     = Fetched (generateStubReputation sample_rt ''203.0.113.250'')"
    by (simp add: fallback_answer_def getIPReputation_def attack_world_def empty_world_def)
  have np: "\<not> isPrivate ''203.0.113.250''"
    by (simp add: isPrivate_def startsWith_def)
  have lo: "lastOctet sample_rt ''203.0.113.250'' = Num 250"
    by (simp add: lastOctet_def parseInt_def signed_def to_number_def parse_unsigned_def
        digits_value_def digit_of_def startsWith_def is_space_def)
  have sc: "abuseScore sample_rt ''203.0.113.250'' = Num 75"
    by (simp add: abuseScore_def np lo js_gt_def js_add_def js_rem_def)
  show "high_risk (Fetched (generateStubReputation sample_rt ''203.0.113.250''))"
    by (simp add: high_risk_def generateStubReputation_def np sc at_least_def js_ge_def)
qed

lemma attack_flagged:
  "flagged sample_time sort sample_rt (standing 1760954460) attack_world = [''203.0.113.250'']"
  "flagged sample_time sort sample_rt (ticking 1761040799) attack_world = [''203.0.113.250'']"
  by (simp_all add: flagged_def standing_def ticking_def attack_candidates attack_stub)

lemma attack_seen:
  "seen_within sample_time 1760954460 (logs attack_world) ''203.0.113.250''"
  "seen_within sample_time 1761040799 (logs attack_world) ''203.0.113.250''"
  "\<not> seen_within sample_time 1761040800 (logs attack_world) ''203.0.113.250''"
  by (simp_all add: seen_within_def attack_world_def empty_world_def sample_log_def
      sample_time_def newer_than_def)

subsection \<open>The claims\<close>




text \<open>
  C2, as the code has it, for the dotted-quad address \<open>a.b.c.d\<close> with octets below 256:
  in the ranges 10.x, 172.16-31.x and 192.168.x the generated record has score 0, no
  reports and is whitelisted; outside these ranges, and outside 172.2.x and 172.200-255.x
  (on which nothing is said here), it is not whitelisted and the last octet decides:
  above 200 the score is \<open>75 + d mod 25\<close> (75 to 99) with \<open>50 + d mod 50\<close> reports, from 101
  to 200 it is \<open>25 + d mod 25\<close> (25 to 49) with \<open>10 + d mod 20\<close> reports, up to 100 it is
  \<open>d mod 15\<close> (0 to 14) with \<open>d mod 5\<close> reports. A lookup of 10.0.0.5 that finds no fresh
  row and has no credential, or a provider that errors, returns the generated record,
  whitelisted with score 0; without a credential it makes no request. With a credential a
  lookup that finds no fresh row sends one request.
\<close>

theorem stub_reputation_bands:
  assumes "a < 256" "b < 256" "c < 256" "d < 256"
  shows
  "(a = 10 \<or> (a = 172 \<and> 16 \<le> b \<and> b \<le> 31) \<or> (a = 192 \<and> b = 168)
      \<longrightarrow> abuse_confidence_score (generateStubReputation s (dotted a b c d)) = Num 0
          \<and> is_whitelisted (generateStubReputation s (dotted a b c d))
          \<and> total_reports (generateStubReputation s (dotted a b c d)) = Num 0)
   \<and> (\<not> (a = 10 \<or> (a = 172 \<and> 16 \<le> b \<and> b \<le> 31) \<or> (a = 192 \<and> b = 168))
        \<and> \<not> (a = 172 \<and> (b = 2 \<or> 200 \<le> b))
      \<longrightarrow> \<not> is_whitelisted (generateStubReputation s (dotted a b c d))
          \<and> (200 < d \<longrightarrow>
                abuse_confidence_score (generateStubReputation s (dotted a b c d)) = Num (75 + int d mod 25)
                \<and> 75 \<le> 75 + int d mod 25 \<and> 75 + int d mod 25 \<le> 99
                \<and> total_reports (generateStubReputation s (dotted a b c d)) = Num (50 + int d mod 50))
          \<and> (100 < d \<and> d \<le> 200 \<longrightarrow>
                abuse_confidence_score (generateStubReputation s (dotted a b c d)) = Num (25 + int d mod 25)
                \<and> 25 \<le> 25 + int d mod 25 \<and> 25 + int d mod 25 \<le> 49
                \<and> total_reports (generateStubReputation s (dotted a b c d)) = Num (10 + int d mod 20))
          \<and> (d \<le> 100 \<longrightarrow>
                abuse_confidence_score (generateStubReputation s (dotted a b c d)) = Num (int d mod 15)
                \<and> 0 \<le> int d mod 15 \<and> int d mod 15 \<le> 14
                \<and> total_reports (generateStubReputation s (dotted a b c d)) = Num (int d mod 5)))
   \<and> ((\<not> truthy k \<or> failing (p ''10.0.0.5''))
        \<and> \<not> (\<exists>r \<in> set (ip_reputation w). ip_address r = ''10.0.0.5'' \<and> now - last_checked r < 604800)
      \<longrightarrow> fst (getIPReputationWithCache k p s now (Some ''10.0.0.5'') w)
            = Some (Fetched (generateStubReputation s ''10.0.0.5''))
          \<and> is_whitelisted (generateStubReputation s ''10.0.0.5'')
          \<and> abuse_confidence_score (generateStubReputation s ''10.0.0.5'') = Num 0
          \<and> (\<not> truthy k \<longrightarrow>
                filter is_request (trace (snd (getIPReputationWithCache k p s now (Some ''10.0.0.5'') w)))
                  = filter is_request (trace w)))
   \<and> (truthy k
        \<and> \<not> (\<exists>r \<in> set (ip_reputation w). ip_address r = ''10.0.0.5'' \<and> now - last_checked r < 604800)
      \<longrightarrow> filter is_request (trace (snd (getIPReputationWithCache k p s now (Some ''10.0.0.5'') w)))
            = filter is_request (trace w) @ [NetworkCall ''10.0.0.5''])"
proof (intro conjI impI)
  let ?r = "generateStubReputation s (dotted a b c d)"
  have fields: "abuse_confidence_score ?r = abuseScore s (dotted a b c d)"
    "total_reports ?r = totalReports s (dotted a b c d)"
    "is_whitelisted ?r = isPrivate (dotted a b c d)"
    by (simp_all add: generateStubReputation_def)
  {
    assume priv: "a = 10 \<or> (a = 172 \<and> 16 \<le> b \<and> b \<le> 31) \<or> (a = 192 \<and> b = 168)"
    then have p: "isPrivate (dotted a b c d)"
      using isPrivate_dotted [OF assms(2), of a c d] by blast
    show "abuse_confidence_score ?r = Num 0" "is_whitelisted ?r" "total_reports ?r = Num 0"
      using p stub_private [OF p] by (simp_all add: fields)
  }
  {
    assume pub: "\<not> (a = 10 \<or> (a = 172 \<and> 16 \<le> b \<and> b \<le> 31) \<or> (a = 192 \<and> b = 168))
        \<and> \<not> (a = 172 \<and> (b = 2 \<or> 200 \<le> b))"
    then have np: "\<not> isPrivate (dotted a b c d)"
      using isPrivate_dotted [OF assms(2), of a c d] by blast
    show "\<not> is_whitelisted ?r"
      using np by (simp add: fields)
    {
      assume "200 < d"
      then show "abuse_confidence_score ?r = Num (75 + int d mod 25)"
        "total_reports ?r = Num (50 + int d mod 50)"
        using stub_public [OF np assms(4)] by (simp_all add: fields)
      show "75 \<le> 75 + int d mod 25" "75 + int d mod 25 \<le> 99" by simp_all
    }
    {
      assume "100 < d \<and> d \<le> 200"
      then show "abuse_confidence_score ?r = Num (25 + int d mod 25)"
        "total_reports ?r = Num (10 + int d mod 20)"
        using stub_public [OF np assms(4)] by (simp_all add: fields)
      show "25 \<le> 25 + int d mod 25" "25 + int d mod 25 \<le> 49" by simp_all
    }
    {
      assume "d \<le> 100"
      then show "abuse_confidence_score ?r = Num (int d mod 15)"
        "total_reports ?r = Num (int d mod 5)"
        using stub_public [OF np assms(4)] by (simp_all add: fields)
      show "0 \<le> int d mod 15" "int d mod 15 \<le> 14" by simp_all
    }
  }
  {
    assume h: "(\<not> truthy k \<or> failing (p ''10.0.0.5''))
        \<and> \<not> (\<exists>r \<in> set (ip_reputation w). ip_address r = ''10.0.0.5'' \<and> now - last_checked r < 604800)"
    have ne: "''10.0.0.5'' \<noteq> []" by simp
    have stub: "fst (fetchFromAbuseIPDB k p s ''10.0.0.5'' (emit (CacheRead ''10.0.0.5'') w))
        = generateStubReputation s ''10.0.0.5''"
      using h fetch_failing fetch_no_key by (metis fst_conv)
    from h have absent: "\<not> (\<exists>r \<in> set (ip_reputation w). ip_address r = ''10.0.0.5'' \<and> now - last_checked r < 604800)"
      by blast
    show "fst (getIPReputationWithCache k p s now (Some ''10.0.0.5'') w)
            = Some (Fetched (generateStubReputation s ''10.0.0.5''))"
      using lookup_refresh [OF ne absent, of k p s] stub by auto
    show "is_whitelisted (generateStubReputation s ''10.0.0.5'')"
      by (simp add: generateStubReputation_def isPrivate_def startsWith_def)
    show "abuse_confidence_score (generateStubReputation s ''10.0.0.5'') = Num 0"
      by (simp add: generateStubReputation_def abuseScore_def isPrivate_def startsWith_def)
    {
      assume nk: "\<not> truthy k"
      have "getIPReputation now (ip_reputation w) ''10.0.0.5'' = None"
        using absent by (simp add: getIPReputation_None fresh_iff)
      then show "filter is_request (trace (snd (getIPReputationWithCache k p s now (Some ''10.0.0.5'') w)))
                  = filter is_request (trace w)"
        using nk lookup_trace [of k p s now "''10.0.0.5''" w] lookup_miss [OF _ ne, of now w k p s]
        by simp
    }
  }
  {
    assume h: "truthy k
        \<and> \<not> (\<exists>r \<in> set (ip_reputation w). ip_address r = ''10.0.0.5'' \<and> now - last_checked r < 604800)"
    have ne: "''10.0.0.5'' \<noteq> []" by simp
    have "getIPReputation now (ip_reputation w) ''10.0.0.5'' = None"
      using h by (simp add: getIPReputation_None fresh_iff)
    then show "filter is_request (trace (snd (getIPReputationWithCache k p s now (Some ''10.0.0.5'') w)))
            = filter is_request (trace w) @ [NetworkCall ''10.0.0.5'']"
      using h lookup_trace [of k p s now "''10.0.0.5''" w] lookup_miss [OF _ ne, of now w k p s]
      by simp
  }
qed

text \<open>C2 on concrete input: 203.0.113.250, 172.16.4.9 and a lookup of 10.0.0.5.\<close>

theorem stub_reputation_bands_witness:
  "abuse_confidence_score (generateStubReputation sample_rt ''203.0.113.250'') = Num 75
   \<and> total_reports (generateStubReputation sample_rt ''203.0.113.250'') = Num 50
   \<and> \<not> is_whitelisted (generateStubReputation sample_rt ''203.0.113.250'')
   \<and> abuse_confidence_score (generateStubReputation sample_rt ''172.16.4.9'') = Num 0
   \<and> is_whitelisted (generateStubReputation sample_rt ''172.16.4.9'')
   \<and> fst (getIPReputationWithCache None unreachable_provider sample_rt 1000
             (Some ''10.0.0.5'') empty_world)
       = Some (Fetched (generateStubReputation sample_rt ''10.0.0.5''))
   \<and> filter is_request (trace (snd (getIPReputationWithCache None unreachable_provider
             sample_rt 1000 (Some ''10.0.0.5'') empty_world))) = []"
  using stub_reputation_bands [where a = 203 and b = 0 and c = 113 and d = 250
      and s = sample_rt and k = None and p = unreachable_provider and w = empty_world
      and now = 1000]
    stub_reputation_bands [where a = 172 and b = 16 and c = 4 and d = 9
      and s = sample_rt and k = None and p = unreachable_provider and w = empty_world
      and now = 1000]
  by (simp add: dotted_def show_nat_1 show_nat_2 show_nat_3 digit_char_def empty_world_def)

text \<open>
  C2, as stated, fails twice. The address 172.200.1.250 lies outside 172.16-31.x and its
  last octet is above 200, yet the generated record is whitelisted with score 0: the
  prefix \<open>172.2\<close> matches it. And with a credential configured a lookup of 10.0.0.5
  sends a request and returns what the provider says, here score 100 and not whitelisted.
\<close>

theorem stub_and_lookup_deviate:
  "dotted 172 200 1 250 = ''172.200.1.250''
   \<and> lastOctet sample_rt ''172.200.1.250'' = Num 250
   \<and> abuse_confidence_score (generateStubReputation sample_rt ''172.200.1.250'') = Num 0
   \<and> is_whitelisted (generateStubReputation sample_rt ''172.200.1.250'')
   \<and> fst (getIPReputationWithCache (Some ''key'') reporting_provider sample_rt 1000
            (Some ''10.0.0.5'') empty_world)
       = Some (Fetched \<lparr> ip_address = ''10.0.0.5'', abuse_confidence_score = Num 100,
                country_code = Some ''ZZ'', usage_type = None, is_whitelisted = False,
                total_reports = Num 40, raw_data = ''{}'' \<rparr>)
   \<and> trace (snd (getIPReputationWithCache (Some ''key'') reporting_provider sample_rt 1000
            (Some ''10.0.0.5'') empty_world))
       = [CacheRead ''10.0.0.5'', NetworkCall ''10.0.0.5'', CacheRead ''10.0.0.5'', CacheWrite ''10.0.0.5'']"
proof -
  have d: "dotted 172 200 1 250 = ''172.200.1.250''"
    by (simp add: dotted_def show_nat_1 show_nat_3 digit_char_def)
  have l: "lastOctet sample_rt ''172.200.1.250'' = Num 250"
    by (simp add: lastOctet_def parseInt_def signed_def to_number_def parse_unsigned_def
        digits_value_def digit_of_def startsWith_def is_space_def)
  have p: "isPrivate ''172.200.1.250''"
    by (simp add: isPrivate_def startsWith_def)
  have s: "abuse_confidence_score (generateStubReputation sample_rt ''172.200.1.250'') = Num 0"
    using p by (simp add: generateStubReputation_def abuseScore_def)
  have w: "is_whitelisted (generateStubReputation sample_rt ''172.200.1.250'')"
    using p by (simp add: generateStubReputation_def)
  have look: "getIPReputationWithCache (Some ''key'') reporting_provider sample_rt 1000
            (Some ''10.0.0.5'') empty_world
     = (Some (Fetched \<lparr> ip_address = ''10.0.0.5'', abuse_confidence_score = Num 100, country_code = Some ''ZZ'',
                usage_type = None, is_whitelisted = False, total_reports = Num 40, raw_data = ''{}'' \<rparr>),
        empty_world\<lparr>ip_reputation := [as_row 1000 ''10.0.0.5'' \<lparr> ip_address = ''10.0.0.5'', abuse_confidence_score = Num 100, country_code = Some ''ZZ'',
                usage_type = None, is_whitelisted = False, total_reports = Num 40, raw_data = ''{}'' \<rparr>],
           trace := [CacheRead ''10.0.0.5'', NetworkCall ''10.0.0.5'', CacheRead ''10.0.0.5'', CacheWrite ''10.0.0.5'']\<rparr>)"
    by (simp add: getIPReputationWithCache_def getIPReputation_def empty_world_def emit_def
        fetchFromAbuseIPDB_def fetch_attempt_def reporting_provider_def response_ok_def
        or_zero_def or_null_def or_false_def store_in_cache_def insertIPReputation_def Let_def)
  show ?thesis
    using d l s w by (simp add: look)
qed




text \<open>
  C4, as the code has it: take a provider that errors on every call, and a run in which
  every address the rule flags still has an event inside the 24-hour window when its
  activity is read. Then \<open>runAllDetections\<close> does not raise. It returns the results of the
  brute-force, off-hours and geo rules, run in this order, and the high-risk list, which
  holds one alert for each distinct source address of the last 24 hours, other than the
  empty string and \<open>__proto__\<close>, whose answer (the fresh cached row, else the generated
  record) is not whitelisted and scores at least 50; the total is the sum of the four
  lengths.
\<close>

theorem runAll_survives_provider_errors:
  assumes "\<forall>ip. failing (p ip)"
    and "reorders arrange"
    and "\<forall>ip \<in> set (flagged T arrange s c w). seen_within T (activity_at c ip) (logs w) ip"
  shows "\<exists>res w'. runAllDetections T bare arrange k p s now c w = (Inr res, w')
      \<and> brute_force res = fst (detectBruteForce T bare arrange now w)
      \<and> off_hours_found res
          = fst (detectOffHoursAccess T now (snd (detectBruteForce T bare arrange now w)))
      \<and> geo_anomaly res
          = fst (detectGeoAnomalies T bare arrange now
                   (snd (detectOffHoursAccess T now (snd (detectBruteForce T bare arrange now w)))))
      \<and> map (\<lambda>d. hr_ip (result d)) (high_risk_ip res) = flagged T arrange s c w
      \<and> distinct (flagged T arrange s c w)
      \<and> set (flagged T arrange s c w)
          = {ip. ip \<noteq> [] \<and> ip \<noteq> ''__proto__'' \<and> seen_within T (scan_at c) (logs w) ip
                 \<and> high_risk (fallback_answer s (lookup_at c ip) (ip_reputation w) ip)}
      \<and> total res = length (brute_force res) + length (off_hours_found res)
                     + length (geo_anomaly res) + length (high_risk_ip res)"
proof -
  have fail: "\<forall>ip. \<not> truthy k \<or> failing (p ip)"
    using assms(1) by blast
  from runAllDetections_fallback [OF fail assms(3), of bare now] obtain res w' where
    r: "runAllDetections T bare arrange k p s now c w = (Inr res, w')"
      "brute_force res = fst (detectBruteForce T bare arrange now w)"
      "off_hours_found res
          = fst (detectOffHoursAccess T now (snd (detectBruteForce T bare arrange now w)))"
      "geo_anomaly res
          = fst (detectGeoAnomalies T bare arrange now
                   (snd (detectOffHoursAccess T now (snd (detectBruteForce T bare arrange now w)))))"
      "map (\<lambda>d. hr_ip (result d)) (high_risk_ip res) = flagged T arrange s c w"
      "total res = length (brute_force res) + length (off_hours_found res)
                     + length (geo_anomaly res) + length (high_risk_ip res)"
    by blast
  have d: "distinct (flagged T arrange s c w)"
    unfolding flagged_def by (intro distinct_filter set_candidates(2) assms(2))
  have m: "set (flagged T arrange s c w)
          = {ip. ip \<noteq> [] \<and> ip \<noteq> ''__proto__'' \<and> seen_within T (scan_at c) (logs w) ip
                 \<and> high_risk (fallback_answer s (lookup_at c ip) (ip_reputation w) ip)}"
    unfolding flagged_def by (auto simp: set_candidates(1) [OF assms(2)])
  show ?thesis
    using r d m by blast
qed

text \<open>
  C4 on concrete input: the store with one login from 203.0.113.250, an unreachable
  provider and a clock that stands still; the run completes and flags the address.
\<close>

theorem runAll_survives_provider_errors_witness:
  "(\<forall>ip. failing (unreachable_provider ip)) \<and> reorders sort
   \<and> list_all (\<lambda>ip. seen_within sample_time (activity_at (standing 1760954460) ip) (logs attack_world) ip)
        (flagged sample_time sort sample_rt (standing 1760954460) attack_world)
   \<and> (\<exists>res w'. runAllDetections sample_time hd sort (Some ''key'') unreachable_provider
                  sample_rt 1760954460 (standing 1760954460) attack_world = (Inr res, w')
         \<and> map (\<lambda>d. hr_ip (result d)) (high_risk_ip res) = [''203.0.113.250'']
         \<and> total res = length (brute_force res) + length (off_hours_found res)
                        + length (geo_anomaly res) + 1)"
proof -
  have f: "\<forall>ip. failing (unreachable_provider ip)"
    by (simp add: unreachable_provider_def)
  have s: "\<forall>ip \<in> set (flagged sample_time sort sample_rt (standing 1760954460) attack_world).
      seen_within sample_time (activity_at (standing 1760954460) ip) (logs attack_world) ip"
    unfolding attack_flagged by (simp add: standing_def steady_def attack_seen)
  from runAll_survives_provider_errors [OF f reorders_sort s, of hd "Some ''key''" 1760954460]
  obtain res w' where
    r: "runAllDetections sample_time hd sort (Some ''key'') unreachable_provider
                  sample_rt 1760954460 (standing 1760954460) attack_world = (Inr res, w')"
    and h: "map (\<lambda>d. hr_ip (result d)) (high_risk_ip res)
        = flagged sample_time sort sample_rt (standing 1760954460) attack_world"
    and t: "total res = length (brute_force res) + length (off_hours_found res)
                     + length (geo_anomaly res) + length (high_risk_ip res)"
    by blast
  have h1: "map (\<lambda>d. hr_ip (result d)) (high_risk_ip res) = [''203.0.113.250'']"
    using h by (simp add: attack_flagged)
  then have "length (high_risk_ip res) = 1"
    by (metis length_map length_Cons list.size(3) One_nat_def)
  then have t1: "total res = length (brute_force res) + length (off_hours_found res)
                        + length (geo_anomaly res) + 1"
    using t by simp
  have s': "list_all (\<lambda>ip. seen_within sample_time (activity_at (standing 1760954460) ip) (logs attack_world) ip)
        (flagged sample_time sort sample_rt (standing 1760954460) attack_world)"
    using s by (simp add: list_all_iff)
  have run: "\<exists>res w'. runAllDetections sample_time hd sort (Some ''key'') unreachable_provider
                  sample_rt 1760954460 (standing 1760954460) attack_world = (Inr res, w')
         \<and> map (\<lambda>d. hr_ip (result d)) (high_risk_ip res) = [''203.0.113.250'']
         \<and> total res = length (brute_force res) + length (off_hours_found res)
                        + length (geo_anomaly res) + 1"
    apply (rule exI [of _ res])
    apply (rule exI [of _ w'])
    apply (intro conjI)
      apply (rule r)
     apply (rule h1)
    apply (rule t1)
    done
  show ?thesis
    using f reorders_sort s' run by (intro conjI)
qed

text \<open>
  C4, as stated, fails twice. With the provider unreachable the generated record of
  203.0.113.250 scores 75, and the run reports this address as high-risk. And when the
  only event of the address leaves the 24-hour window between the DISTINCT query and
  the activity query (the clock ticks once while the lookup and its pause are awaited),
  the activity query returns NULL for \<open>first_seen\<close> and the insertion raises.
\<close>

theorem provider_down_still_flags:
  "flagged_ips (fst (runAllDetections sample_time hd sort (Some ''key'') unreachable_provider
       sample_rt 1760954460 (standing 1760954460) attack_world)) = [''203.0.113.250'']
   \<and> raised (fst (runAllDetections sample_time hd sort (Some ''key'') unreachable_provider
       sample_rt 1761040799 (ticking 1761040799) attack_world)) = Some ConstraintError"
proof -
  have s: "\<forall>ip \<in> set (flagged sample_time sort sample_rt (standing 1760954460) attack_world).
      seen_within sample_time (activity_at (standing 1760954460) ip) (logs attack_world) ip"
    unfolding attack_flagged by (simp add: standing_def steady_def attack_seen)
  from runAllDetections_fallback [where k = "Some ''key''" and p = unreachable_provider
      and T = sample_time and bare = hd and arrange = sort and s = sample_rt and now = 1760954460
      and c = "standing 1760954460" and w = attack_world, OF unreachable_fails s]
  obtain res w' where
    r: "runAllDetections sample_time hd sort (Some ''key'') unreachable_provider
       sample_rt 1760954460 (standing 1760954460) attack_world = (Inr res, w')"
    and h: "map (\<lambda>d. hr_ip (result d)) (high_risk_ip res)
          = flagged sample_time sort sample_rt (standing 1760954460) attack_world"
    by blast
  have a: "flagged_ips (fst (runAllDetections sample_time hd sort (Some ''key'') unreachable_provider
       sample_rt 1760954460 (standing 1760954460) attack_world)) = [''203.0.113.250'']"
    unfolding r using h by (simp add: flagged_ips_def attack_flagged)
  let ?w3 = "snd (detectGeoAnomalies sample_time hd sort 1761040799
                   (snd (detectOffHoursAccess sample_time 1761040799
                          (snd (detectBruteForce sample_time hd sort 1761040799 attack_world)))))"
  have fr: "logs ?w3 = logs attack_world" "ip_reputation ?w3 = ip_reputation attack_world"
    by (simp_all add: detectGeoAnomalies_frame detectOffHoursAccess_frame detectBruteForce_frame)
  from detectHighRiskIPs_fallback [where k = "Some ''key''" and p = unreachable_provider
      and T = sample_time and arrange = sort and s = sample_rt and c = "ticking 1761040799"
      and w = ?w3, OF unreachable_fails]
  obtain w1 where
    run: "detectHighRiskIPs sample_time sort (Some ''key'') unreachable_provider sample_rt
            (ticking 1761040799) ?w3
          = high_risk_alerts sample_time (activity_at (ticking 1761040799))
              (map (\<lambda>ip. (ip, Some (fallback_answer sample_rt (lookup_at (ticking 1761040799) ip)
                                       (ip_reputation ?w3) ip)))
                 (candidates sample_time sort (scan_at (ticking 1761040799)) (logs ?w3))) [] w1"
    and l: "logs w1 = logs ?w3"
    by blast
  have reps: "map (\<lambda>ip. (ip, Some (fallback_answer sample_rt (lookup_at (ticking 1761040799) ip)
                                       (ip_reputation ?w3) ip)))
                 (candidates sample_time sort (scan_at (ticking 1761040799)) (logs ?w3))
      = [(''203.0.113.250'', Some (Fetched (generateStubReputation sample_rt ''203.0.113.250'')))]"
    unfolding fr by (simp add: ticking_def attack_candidates attack_stub)
  have gone: "\<not> seen_within sample_time (activity_at (ticking 1761040799) ''203.0.113.250'')
      (logs w1) ''203.0.113.250''"
    unfolding l fr by (simp add: ticking_def steady_def attack_seen)
  have "detectHighRiskIPs sample_time sort (Some ''key'') unreachable_provider sample_rt
            (ticking 1761040799) ?w3 = (Inl ConstraintError, w1)"
    unfolding run reps
    by (rule high_risk_alerts_raise [where tm = "activity_at (ticking 1761040799)"
          and ip = "''203.0.113.250''", OF attack_stub(2) gone])
  then have b: "raised (fst (runAllDetections sample_time hd sort (Some ''key'') unreachable_provider
       sample_rt 1761040799 (ticking 1761040799) attack_world)) = Some ConstraintError"
    by (simp add: runAllDetections_def Let_def split_beta raised_def)
  show ?thesis
    using a b by blast
qed

text \<open>
  C5, as the code has it: the alerts \<open>detectOffHoursAccess\<close> inserts are, in order, one per
  row of \<open>logs\<close> whose status matches the success vocabulary (whatever else it matches),
  whose timestamp is later than 24 hours before now and whose hour, read in UTC, is
  before 9 or from 18 on, or whose weekday, read in UTC, is Sunday (0) or Saturday (6):
  each of type \<open>off_hours_access\<close>, severity \<open>medium\<close>, event count 1, first and last seen
  the row's timestamp. Every other row yields none; nothing is grouped; the returned
  array has one element per inserted alert, with its id. The status \<open>failed\<close> is outside
  the success vocabulary.
\<close>

theorem off_hours_one_alert_per_access:
  "map (\<lambda>a. (alert_type a, severity a, event_count a, first_seen a, last_seen a,
               affected_entity a, alert_source_ip a))
       (drop (length (alerts w)) (alerts (snd (detectOffHoursAccess T now w))))
     = map (\<lambda>l. (''off_hours_access'', ''medium'', 1, timestamp l, timestamp l, username l, source_ip l))
         (filter (\<lambda>l. success_status (status l)
                       \<and> (case T (timestamp l) of
                             None \<Rightarrow> False
                           | Some t \<Rightarrow> now - 86400 < t
                                \<and> (hour_of t < 9 \<or> 18 \<le> hour_of t
                                    \<or> weekday_of t = 0 \<or> weekday_of t = 6)))
            (logs w))
   \<and> map alert_id (drop (length (alerts w)) (alerts (snd (detectOffHoursAccess T now w))))
     = map detected_id (fst (detectOffHoursAccess T now w))
   \<and> take (length (alerts w)) (alerts (snd (detectOffHoursAccess T now w))) = alerts w
   \<and> length (fst (detectOffHoursAccess T now w))
     = length (filter (\<lambda>l. success_status (status l)
                       \<and> (case T (timestamp l) of
                             None \<Rightarrow> False
                           | Some t \<Rightarrow> now - 86400 < t
                                \<and> (hour_of t < 9 \<or> 18 \<le> hour_of t
                                    \<or> weekday_of t = 0 \<or> weekday_of t = 6)))
            (logs w))
   \<and> \<not> success_status (Some ''failed'')"
proof -
  let ?q = "\<lambda>l. success_status (status l)
                       \<and> (case T (timestamp l) of
                             None \<Rightarrow> False
                           | Some t \<Rightarrow> now - 86400 < t
                                \<and> (hour_of t < 9 \<or> 18 \<le> hour_of t
                                    \<or> weekday_of t = 0 \<or> weekday_of t = 6))"
  have q: "(\<lambda>l. success_status (status l) \<and> off_hours T 9 18 l \<and> newer_than T now 86400 l) = ?q"
    by (auto simp: off_hours_def newer_than_def fun_eq_iff split: option.splits)
  define rs where "rs = offHoursQuery T now (logs w) 9 18"
  have rs: "rs = map (\<lambda>l. \<lparr> oh_username = username l, oh_source_ip = source_ip l,
                oh_timestamp = timestamp l, oh_event_type = event_type l \<rparr>) (filter ?q (logs w))"
    unfolding rs_def offHoursQuery_def q ..
  have d: "detectOffHoursAccess T now w = off_hours_alerts now rs [] w"
    by (simp add: detectOffHoursAccess_def rs_def)
  note spec = off_hours_alerts_spec [of now rs "[]" w]
  let ?k = "\<lambda>r. (''off_hours_access'', ''medium'', 1::nat, oh_timestamp r, oh_timestamp r,
                  oh_username r, oh_source_ip r)"
  have "map (\<lambda>a. (alert_type a, severity a, event_count a, first_seen a, last_seen a,
               affected_entity a, alert_source_ip a))
       (drop (length (alerts w)) (alerts (snd (off_hours_alerts now rs [] w))))
     = map (\<lambda>x. ?k (snd x)) (enumerate (alert_seq w + 1) rs)"
    by (simp add: spec split_beta o_def)
  also have "\<dots> = map ?k rs"
    by (rule map_enumerate_const)
  finally have rows: "map (\<lambda>a. (alert_type a, severity a, event_count a, first_seen a, last_seen a,
               affected_entity a, alert_source_ip a))
       (drop (length (alerts w)) (alerts (snd (off_hours_alerts now rs [] w))))
     = map ?k rs" .
  have ids: "map alert_id (drop (length (alerts w)) (alerts (snd (off_hours_alerts now rs [] w))))
     = map detected_id (fst (off_hours_alerts now rs [] w))"
    by (simp add: spec split_beta o_def)
  have old: "take (length (alerts w)) (alerts (snd (off_hours_alerts now rs [] w))) = alerts w"
    by (simp add: spec)
  have len: "length (fst (off_hours_alerts now rs [] w)) = length rs"
    by (simp add: spec)
  have nf: "\<not> success_status (Some ''failed'')"
    by (simp add: success_status_def like_infix_def lower_ascii_def)
  show ?thesis
    unfolding d using rows ids old len nf by (simp add: rs o_def)
qed

text \<open>
  C5 on concrete input, at Monday noon: the success of Monday 02:00 and the one of Sunday
  14:00 are reported, the success of Monday 10:00 and the failure of Monday 02:00 are not.
\<close>

theorem off_hours_one_alert_per_access_witness:
  "map (\<lambda>a. (alert_type a, severity a, event_count a, first_seen a, last_seen a,
               affected_entity a, alert_source_ip a))
       (drop (length (alerts office_world))
          (alerts (snd (detectOffHoursAccess sample_time 1760961600 office_world))))
     = [(''off_hours_access'', ''medium'', 1, ''2025-10-20T02:00:00Z'', ''2025-10-20T02:00:00Z'',
         Some ''alice'', Some ''203.0.113.45''),
        (''off_hours_access'', ''medium'', 1, ''2025-10-19T14:00:00Z'', ''2025-10-19T14:00:00Z'',
         Some ''bob'', Some ''198.51.100.22'')]
   \<and> length (fst (detectOffHoursAccess sample_time 1760961600 office_world)) = 2"
proof -
  note inst = off_hours_one_alert_per_access [of office_world sample_time 1760961600]
  have logs: "logs office_world =
      [sample_log 1 ''2025-10-20T02:00:00Z'' ''alice'' ''203.0.113.45'' ''success'',
       sample_log 2 ''2025-10-20T10:00:00Z'' ''charlie'' ''172.16.0.5'' ''success'',
       sample_log 3 ''2025-10-20T02:00:00Z'' ''david'' ''192.168.1.105'' ''failed'',
       sample_log 4 ''2025-10-19T14:00:00Z'' ''bob'' ''198.51.100.22'' ''Accepted'']"
    by (simp add: office_world_def empty_world_def)
  have sel: "filter (\<lambda>l. success_status (status l)
                       \<and> (case sample_time (timestamp l) of
                             None \<Rightarrow> False
                           | Some t \<Rightarrow> 1760961600 - 86400 < t
                                \<and> (hour_of t < 9 \<or> 18 \<le> hour_of t
                                    \<or> weekday_of t = 0 \<or> weekday_of t = 6)))
            (logs office_world)
     = [sample_log 1 ''2025-10-20T02:00:00Z'' ''alice'' ''203.0.113.45'' ''success'',
        sample_log 4 ''2025-10-19T14:00:00Z'' ''bob'' ''198.51.100.22'' ''Accepted'']"
    unfolding logs
    by (simp add: sample_log_def sample_time_def success_status_def like_infix_def
        lower_ascii_def hour_of_def weekday_of_def)
  show ?thesis
    using inst [THEN conjunct1] inst [THEN conjunct2, THEN conjunct2, THEN conjunct2, THEN conjunct1]
    unfolding sel by (simp add: sample_log_def)
qed

text \<open>
  C5, as stated, fails twice, at Monday noon. A success stamped Sunday 23:00 at the
  offset -10:00 is Monday 09:00 in UTC, which is the time the query reads: no alert for
  it. An attempt of Monday 02:00 whose status is a failure by the failure vocabulary and
  contains \<open>accepted\<close> is reported.
\<close>

theorem off_hours_reads_utc_and_any_success_word:
  "failed_status (Some ''Access denied: token not accepted'')
   \<and> map alert_columns
        (new_alerts zone_world (snd (detectOffHoursAccess sample_time 1760961600 zone_world)))
       = [(''off_hours_access'', ''medium'', 1, ''2025-10-20T02:00:00Z'', ''2025-10-20T02:00:00Z'',
           Some ''frank'', Some ''198.51.100.8'')]
   \<and> sample_time ''2025-10-19T23:00:00-10:00'' = Some 1760950800
   \<and> weekday_of (1760950800 - 36000) = 0 \<and> hour_of (1760950800 - 36000) = 23
   \<and> weekday_of 1760950800 = 1 \<and> hour_of 1760950800 = 9"
proof -
  have f: "failed_status (Some ''Access denied: token not accepted'')"
    by (simp add: failed_status_def like_infix_def lower_ascii_def)
  have q: "offHoursQuery sample_time 1760961600 (logs zone_world) 9 18
      = [\<lparr> oh_username = Some ''frank'', oh_source_ip = Some ''198.51.100.8'',
           oh_timestamp = ''2025-10-20T02:00:00Z'', oh_event_type = Some ''login'' \<rparr>]"
    by (simp add: offHoursQuery_def zone_world_def empty_world_def sample_log_def
        sample_time_def success_status_def like_infix_def lower_ascii_def off_hours_def
        newer_than_def hour_of_def weekday_of_def)
  have a: "map alert_columns
        (new_alerts zone_world (snd (detectOffHoursAccess sample_time 1760961600 zone_world)))
       = [(''off_hours_access'', ''medium'', 1, ''2025-10-20T02:00:00Z'', ''2025-10-20T02:00:00Z'',
           Some ''frank'', Some ''198.51.100.8'')]"
    unfolding off_hours_columns q by simp
  have t: "sample_time ''2025-10-19T23:00:00-10:00'' = Some 1760950800"
    by (simp add: sample_time_def)
  have c: "weekday_of (1760950800 - 36000) = 0" "hour_of (1760950800 - 36000) = 23"
    "weekday_of 1760950800 = 1" "hour_of 1760950800 = 9"
    by (simp_all add: weekday_of_def hour_of_def)
  show ?thesis
    using f a t c by blast
qed

text \<open>
  C6, as the code has it: \<open>clearStaleCache\<close> removes exactly the rows whose \<open>last_checked\<close>
  is at or before \<open>now - 7 days\<close> (age of at least seven days, the boundary included),
  keeps every other row as it was and in order, and returns the number of rows removed.
\<close>

theorem clearStaleCache_exact:
  "ip_reputation (snd (clearStaleCache now w))
     = filter (\<lambda>r. now - 604800 < last_checked r) (ip_reputation w)
   \<and> fst (clearStaleCache now w)
     = length (filter (\<lambda>r. last_checked r \<le> now - 604800) (ip_reputation w))
   \<and> fst (clearStaleCache now w) + length (ip_reputation (snd (clearStaleCache now w)))
     = length (ip_reputation w)
   \<and> logs (snd (clearStaleCache now w)) = logs w
   \<and> alerts (snd (clearStaleCache now w)) = alerts w"
proof -
  have ttl: "ttl_seconds = 604800"
    by (simp add: ttl_seconds_def CACHE_TTL_DAYS_def)
  have keep: "(\<lambda>r. \<not> stale now r) = (\<lambda>r. now - 604800 < last_checked r)"
    by (auto simp: stale_def ttl)
  have gone: "stale now = (\<lambda>r. last_checked r \<le> now - 604800)"
    by (auto simp: stale_def ttl)
  have total: "length (filter (stale now) (ip_reputation w))
      + length (filter (\<lambda>r. \<not> stale now r) (ip_reputation w)) = length (ip_reputation w)"
    by (rule sum_length_filter_compl)
  have c1: "ip_reputation (snd (clearStaleCache now w))
      = filter (\<lambda>r. now - 604800 < last_checked r) (ip_reputation w)"
    unfolding clearStaleCache_def keep by simp
  have c2: "fst (clearStaleCache now w)
      = length (filter (\<lambda>r. last_checked r \<le> now - 604800) (ip_reputation w))"
    unfolding clearStaleCache_def gone by simp
  have c3: "fst (clearStaleCache now w) + length (ip_reputation (snd (clearStaleCache now w)))
      = length (ip_reputation w)"
    unfolding clearStaleCache_def using total by simp
  have c4: "logs (snd (clearStaleCache now w)) = logs w"
    by (simp add: clearStaleCache_def)
  have c5: "alerts (snd (clearStaleCache now w)) = alerts w"
    by (simp add: clearStaleCache_def)
  show ?thesis
    using c1 c2 c3 c4 c5 by blast
qed

text \<open>
  C6, as stated, at the boundary: a row checked exactly seven days ago does not precede
  \<open>now - TTL\<close>, and \<open>clearStaleCache\<close> deletes it and counts it.
\<close>

theorem clearStaleCache_boundary_removed:
  "\<not> last_checked (cached_row ''8.8.8.8'' 0) < 604800 - ttl_seconds
   \<and> fst (clearStaleCache 604800 boundary_world) = 1
   \<and> ip_reputation (snd (clearStaleCache 604800 boundary_world)) = []"
  by (simp add: clearStaleCache_def boundary_world_def empty_world_def cached_row_def stale_def
      ttl_seconds_def CACHE_TTL_DAYS_def)

text \<open>
  C7: \<open>insertMany\<close> stores the whole batch or nothing. When every entry normalizes and
  binds, the table \<open>logs\<close> grows by one row per entry, in order, each holding in its eight
  columns the values bound for its entry, and the other tables stay as they were. When
  some entry raises, in normalization or in the insertion, the call raises and the state
  is the one before the call. This holds for every way the driver binds values.
\<close>

theorem insertMany_all_or_nothing:
  "(list_all (storable rt binding tnow now) entries \<longrightarrow>
      (\<exists>w'. insertMany rt binding tnow now entries w = (Inr (), w')
           \<and> length (logs w') = length (logs w) + length entries
           \<and> take (length (logs w)) (logs w') = logs w
           \<and> map columns_of (drop (length (logs w)) (logs w'))
               = map (bound_values rt binding tnow) entries
           \<and> alerts w' = alerts w \<and> ip_reputation w' = ip_reputation w))
   \<and> (\<not> list_all (storable rt binding tnow now) entries \<longrightarrow>
        (\<exists>err. insertMany rt binding tnow now entries w = (Inl err, w)))"
proof (cases "insert_entries rt binding tnow now entries w")
  case (Inl err)
  then have "\<not> list_all (storable rt binding tnow now) entries"
    using insert_entries_succeeds_iff [of rt binding tnow now entries w] by simp
  then show ?thesis
    using Inl by (simp add: insertMany_def transaction_def)
next
  case (Inr w')
  then have "list_all (storable rt binding tnow now) entries"
    using insert_entries_succeeds_iff [of rt binding tnow now entries w] by auto
  then show ?thesis
    using Inr insert_entries_stored [OF Inr] by (simp add: insertMany_def transaction_def)
qed

text \<open>
  C7 on concrete input: a batch of two entries, the second with its timestamp in an
  array, which the driver spreads; a batch whose second entry carries a boolean
  timestamp; a batch whose second entry is \<open>null\<close>.
\<close>

theorem insertMany_all_or_nothing_witness:
  "list_all (storable sample_rt sample_binding ''2025-10-15T12:00:00.000Z'' 1000) [login_entry, listed_entry]
   \<and> (\<exists>w'. insertMany sample_rt sample_binding ''2025-10-15T12:00:00.000Z'' 1000
               [login_entry, listed_entry] two_cached_world = (Inr (), w')
          \<and> map columns_of (logs w')
              = [ [Some ''2025-10-15T02:00:00Z'', Some ''unknown'', Some ''alice'',
                  Some ''203.0.113.45'', None, Some ''success'', None, Some ''{}''],
                 [Some ''2025-10-20T10:00:00Z'', Some ''unknown'', None, None,
                  None, Some ''failed'', None, Some ''{}'']]
          \<and> ip_reputation w' = ip_reputation two_cached_world)
   \<and> \<not> list_all (storable sample_rt sample_binding ''2025-10-15T12:00:00.000Z'' 1000)
          [login_entry, unbindable_entry, listed_entry]
   \<and> snd (insertMany sample_rt sample_binding ''2025-10-15T12:00:00.000Z'' 1000
            [login_entry, unbindable_entry, listed_entry] two_cached_world) = two_cached_world
   \<and> isl (fst (insertMany sample_rt sample_binding ''2025-10-15T12:00:00.000Z'' 1000
            [login_entry, unbindable_entry, listed_entry] two_cached_world))"
proof -
  have good: "list_all (storable sample_rt sample_binding ''2025-10-15T12:00:00.000Z'' 1000)
      [login_entry, listed_entry]"
    by (simp add: sample_storable)
  have bad: "\<not> list_all (storable sample_rt sample_binding ''2025-10-15T12:00:00.000Z'' 1000)
      [login_entry, unbindable_entry, listed_entry]"
    by (simp add: sample_storable)
  have logs0: "logs two_cached_world = []"
    by (simp add: two_cached_world_def empty_world_def)
  from insertMany_all_or_nothing [of sample_rt sample_binding "''2025-10-15T12:00:00.000Z''" 1000
        "[login_entry, listed_entry]" two_cached_world] good
  obtain w' where
    w': "insertMany sample_rt sample_binding ''2025-10-15T12:00:00.000Z'' 1000
               [login_entry, listed_entry] two_cached_world = (Inr (), w')"
    and cols: "map columns_of (drop (length (logs two_cached_world)) (logs w'))
               = map (bound_values sample_rt sample_binding ''2025-10-15T12:00:00.000Z'')
                   [login_entry, listed_entry]"
    and rep: "ip_reputation w' = ip_reputation two_cached_world"
    by blast
  have stored: "map columns_of (logs w')
              = [ [Some ''2025-10-15T02:00:00Z'', Some ''unknown'', Some ''alice'',
                  Some ''203.0.113.45'', None, Some ''success'', None, Some ''{}''],
                 [Some ''2025-10-20T10:00:00Z'', Some ''unknown'', None, None,
                  None, Some ''failed'', None, Some ''{}'']]"
    using cols unfolding logs0 by (simp add: login_bound listed_bound)
  from insertMany_all_or_nothing [of sample_rt sample_binding "''2025-10-15T12:00:00.000Z''" 1000
        "[login_entry, unbindable_entry, listed_entry]" two_cached_world] bad
  obtain err where
    err: "insertMany sample_rt sample_binding ''2025-10-15T12:00:00.000Z'' 1000
            [login_entry, unbindable_entry, listed_entry] two_cached_world = (Inl err, two_cached_world)"
    by blast
  show ?thesis
    using good bad w' stored rep by (simp add: err)
qed

text \<open>
  C8, as the code has it: \<open>enrichIPsBatch\<close> resolves the distinct truthy entries of its
  input one after the other, in order of first appearance, and with a credential
  configured it pauses 250 ms after every lookup, whichever way the lookup was resolved
  (cached row, request, fallback) and after the last one too; without a credential it
  never pauses. The trace is the lookups' effects in order, each followed by its pause.
\<close>

theorem batch_pauses_after_every_lookup:
  "map fst (fst (enrichIPsBatch k p s tm ipAddresses w)) = unique (truthy_only ipAddresses)
   \<and> trace (snd (enrichIPsBatch k p s tm ipAddresses w))
       = trace w @ concat (map (\<lambda>(ip, r). lookup_events (truthy k) ip r
                                   @ (if truthy k then [Sleep 250] else []))
                             (fst (enrichIPsBatch k p s tm ipAddresses w)))
   \<and> filter is_pause (trace (snd (enrichIPsBatch k p s tm ipAddresses w)))
       = filter is_pause (trace w)
         @ replicate (if truthy k then length (unique (truthy_only ipAddresses)) else 0) (Sleep 250)"
proof -
  have keys: "map fst (fst (enrichIPsBatch k p s tm ipAddresses w)) = unique (truthy_only ipAddresses)"
    by (simp add: enrichIPsBatch_def enrich_loop_keys uniqueIPs_def)
  have steps: "trace (snd (enrichIPsBatch k p s tm ipAddresses w))
       = trace w @ concat (map (\<lambda>(ip, r). lookup_events (truthy k) ip r
                                   @ (if truthy k then [Sleep 250] else []))
                             (fst (enrichIPsBatch k p s tm ipAddresses w)))"
    unfolding enrichIPsBatch_def by (rule enrich_loop_trace)
  have pauses: "filter is_pause (trace (snd (enrichIPsBatch k p s tm ipAddresses w)))
       = filter is_pause (trace w)
         @ replicate (if truthy k then length (unique (truthy_only ipAddresses)) else 0) (Sleep 250)"
    unfolding enrichIPsBatch_def uniqueIPs_def by (rule enrich_loop_pauses)
  show ?thesis
    using keys steps pauses by blast
qed

text \<open>C8 on concrete input: no credential, one cached address, one fetched, no pause.\<close>

theorem batch_pauses_after_every_lookup_witness:
  "map fst (fst (enrichIPsBatch None unreachable_provider sample_rt (steady 1000)
       [Some ''1.1.1.1'', None, Some ''8.8.8.8'', Some ''1.1.1.1''] two_cached_world))
     = [''1.1.1.1'', ''8.8.8.8'']
   \<and> filter is_pause (trace (snd (enrichIPsBatch None unreachable_provider sample_rt (steady 1000)
       [Some ''1.1.1.1'', None, Some ''8.8.8.8'', Some ''1.1.1.1''] two_cached_world))) = []"
proof -
  note inst = batch_pauses_after_every_lookup [of None unreachable_provider sample_rt "steady 1000"
      "[Some ''1.1.1.1'', None, Some ''8.8.8.8'', Some ''1.1.1.1'']" two_cached_world]
  have t: "trace two_cached_world = []"
    by (simp add: two_cached_world_def empty_world_def)
  show ?thesis
    using inst [THEN conjunct1] inst [THEN conjunct2, THEN conjunct2]
    by (simp add: unique_def t)
qed

text \<open>
  C8, as stated, fails: with a credential configured, two addresses that are both served
  from the cache (no request at all) are each followed by a pause of 250 ms.
\<close>

theorem cache_hits_are_paused_too:
  "enrichIPsBatch (Some ''key'') unreachable_provider sample_rt (steady 1000)
       [Some ''1.1.1.1'', Some ''2.2.2.2''] two_cached_world
     = ([(''1.1.1.1'', Some (Cached (cached_row ''1.1.1.1'' 900))),
         (''2.2.2.2'', Some (Cached (cached_row ''2.2.2.2'' 950)))],
        two_cached_world\<lparr>trace := [CacheRead ''1.1.1.1'', Sleep 250, CacheRead ''2.2.2.2'', Sleep 250]\<rparr>)"
  by (simp add: enrichIPsBatch_def uniqueIPs_def unique_def getIPReputationWithCache_def
      getIPReputation_def fresh_def ttl_seconds_def CACHE_TTL_DAYS_def two_cached_world_def
      empty_world_def cached_row_def emit_def steady_def Let_def)

text \<open>
  C9, as the code has it: \<open>normalizeLogEntry\<close> accepts every entry other than \<open>null\<close>. Each
  field of the normalized entry is the value the entry has under the first of the
  field's names that gives it a truthy value; when no name does, the timestamp is the
  current time, the event type is \<open>'unknown'\<close> and every other field is \<open>null\<close>. So the
  timestamp is never \<open>null\<close>; the raw data is the serialization of the entry.
\<close>

theorem normalization_defaults:
  "entry \<noteq> JNull \<Longrightarrow>
   \<exists>n. normalizeLogEntry rt iso_now entry = Inr n
      \<and> n_timestamp n \<noteq> JNull
      \<and> n_raw_data n = JSON_stringify rt entry
      \<and> field_or entry [''timestamp'', ''time'', ''datetime'', ''date''] (JStr iso_now) (n_timestamp n)
      \<and> field_or entry [''event_type'', ''eventType'', ''type'', ''action''] (JStr ''unknown'')
           (n_event_type n)
      \<and> field_or entry [''username'', ''user'', ''account'', ''userid''] JNull (n_username n)
      \<and> field_or entry [''source_ip'', ''sourceIP'', ''src_ip'', ''ip'', ''clientIP''] JNull
           (n_source_ip n)
      \<and> field_or entry [''destination_ip'', ''destIP'', ''dest_ip'', ''target_ip''] JNull
           (n_destination_ip n)
      \<and> field_or entry [''status'', ''result'', ''outcome''] JNull (n_status n)
      \<and> field_or entry [''message'', ''description'', ''msg'', ''details''] JNull (n_message n)"
  by (simp add: normalizeLogEntry_def first_truthy_field first_truthy_not_null
      del: first_truthy.simps)

text \<open>
  C9 on concrete input: an entry with none of the known fields, and one that names its
  fields by their second and later names.
\<close>

theorem normalization_defaults_witness:
  "bare_entry \<noteq> JNull \<and> login_entry \<noteq> JNull
   \<and> normalizeLogEntry sample_rt ''2025-10-15T12:00:00.000Z'' bare_entry
       = Inr \<lparr> n_timestamp = JStr ''2025-10-15T12:00:00.000Z'', n_event_type = JStr ''unknown'',
                n_username = JNull, n_source_ip = JNull, n_destination_ip = JNull,
                n_status = JNull, n_message = JNull, n_raw_data = JSON_stringify sample_rt bare_entry \<rparr>
   \<and> normalizeLogEntry sample_rt ''2025-10-15T12:00:00.000Z'' login_entry
       = Inr \<lparr> n_timestamp = JStr ''2025-10-15T02:00:00Z'', n_event_type = JStr ''unknown'',
                n_username = JStr ''alice'', n_source_ip = JStr ''203.0.113.45'',
                n_destination_ip = JNull, n_status = JStr ''success'', n_message = JNull,
                n_raw_data = JSON_stringify sample_rt login_entry \<rparr>"
proof -
  have b: "bare_entry \<noteq> JNull" and l: "login_entry \<noteq> JNull"
    by (simp_all add: bare_entry_def login_entry_def)
  have m0: "\<And>e. missing e []"
    by (simp add: missing_def)
  from normalization_defaults [OF b, of sample_rt "''2025-10-15T12:00:00.000Z''"]
  obtain n where n: "normalizeLogEntry sample_rt ''2025-10-15T12:00:00.000Z'' bare_entry = Inr n"
    and f: "n_raw_data n = JSON_stringify sample_rt bare_entry"
      "n_timestamp n = JStr ''2025-10-15T12:00:00.000Z''" "n_event_type n = JStr ''unknown''"
      "n_username n = JNull" "n_source_ip n = JNull" "n_destination_ip n = JNull"
      "n_status n = JNull" "n_message n = JNull"
    by (auto simp: bare_entry_def field_or_def missing_def)
  have nb: "n = \<lparr> n_timestamp = JStr ''2025-10-15T12:00:00.000Z'', n_event_type = JStr ''unknown'',
                n_username = JNull, n_source_ip = JNull, n_destination_ip = JNull,
                n_status = JNull, n_message = JNull, n_raw_data = JSON_stringify sample_rt bare_entry \<rparr>"
    using f by simp
  from normalization_defaults [OF l, of sample_rt "''2025-10-15T12:00:00.000Z''"]
  obtain m where m: "normalizeLogEntry sample_rt ''2025-10-15T12:00:00.000Z'' login_entry = Inr m"
    and g: "n_raw_data m = JSON_stringify sample_rt login_entry"
      "n_timestamp m = JStr ''2025-10-15T02:00:00Z''" "n_event_type m = JStr ''unknown''"
      "n_username m = JStr ''alice''" "n_source_ip m = JStr ''203.0.113.45''"
      "n_destination_ip m = JNull"
      "n_status m = JStr ''success''" "n_message m = JNull"
    by (auto simp: login_entry_def field_or_def missing_Cons first_named_Cons m0 first_named_def)
  have ml: "m = \<lparr> n_timestamp = JStr ''2025-10-15T02:00:00Z'', n_event_type = JStr ''unknown'',
                n_username = JStr ''alice'', n_source_ip = JStr ''203.0.113.45'',
                n_destination_ip = JNull, n_status = JStr ''success'', n_message = JNull,
                n_raw_data = JSON_stringify sample_rt login_entry \<rparr>"
    using g by simp
  show ?thesis
    using b l n m unfolding nb ml by simp
qed

text \<open>
  C9, as stated, fails on the entry \<open>null\<close>: normalization throws, and the batch that holds
  the entry is rejected as a whole.
\<close>

theorem null_entry_is_rejected:
  "normalizeLogEntry sample_rt ''2025-10-15T12:00:00.000Z'' JNull = Inl TypeError
   \<and> insertMany sample_rt sample_binding ''2025-10-15T12:00:00.000Z'' 1000
        [login_entry, JNull] two_cached_world = (Inl TypeError, two_cached_world)"
  by (simp add: normalizeLogEntry_def insertMany_def transaction_def login_entry_def
      insertLog_def arguments_def sample_binding_def sample_rt_def sample_stringify_def)

text \<open>
  C10: for a falsy address (\<open>null\<close>, \<open>undefined\<close> or the empty string)
  \<open>getIPReputationWithCache\<close> returns \<open>null\<close> and leaves the state as it was, trace
  included: no statement on the cache, no request, no write. \<open>enrichIPsBatch\<close> drops the
  falsy entries before it resolves anything: the keys of its result are the distinct
  truthy entries of the input, in order of first appearance.
\<close>

theorem falsy_ip_is_skipped:
  "(\<not> truthy ipAddress \<longrightarrow> getIPReputationWithCache k p s now ipAddress w = (None, w))
   \<and> map fst (fst (enrichIPsBatch k p s tm ipAddresses w)) = unique (truthy_only ipAddresses)
   \<and> set (map fst (fst (enrichIPsBatch k p s tm ipAddresses w)))
       = {ip. Some ip \<in> set ipAddresses \<and> ip \<noteq> []}"
proof -
  have keys: "map fst (fst (enrichIPsBatch k p s tm ipAddresses w)) = uniqueIPs ipAddresses"
    by (simp add: enrichIPsBatch_def enrich_loop_keys)
  have falsy: "\<not> truthy ipAddress \<longrightarrow> getIPReputationWithCache k p s now ipAddress w = (None, w)"
    using lookup_falsy by blast
  have members: "set (uniqueIPs ipAddresses) = {ip. Some ip \<in> set ipAddresses \<and> ip \<noteq> []}"
    by (simp add: uniqueIPs_def set_unique set_truthy_only)
  show ?thesis
    using keys falsy members by (simp add: uniqueIPs_def)
qed

text \<open>C10 on concrete input: the empty string, and a batch with two falsy entries.\<close>

theorem falsy_ip_is_skipped_witness:
  "\<not> truthy (Some [])
   \<and> getIPReputationWithCache None unreachable_provider sample_rt 1000 (Some []) boundary_world
       = (None, boundary_world)
   \<and> map fst (fst (enrichIPsBatch None unreachable_provider sample_rt (steady 1000)
                      [None, Some ''10.0.0.5'', Some [], Some ''10.0.0.5''] boundary_world))
       = [''10.0.0.5'']"
  using falsy_ip_is_skipped [where ipAddress = "Some []" and k = None and p = unreachable_provider
      and s = sample_rt and now = 1000 and w = boundary_world and tm = "steady 1000"
      and ipAddresses = "[None, Some ''10.0.0.5'', Some [], Some ''10.0.0.5'']"]
  by (simp add: unique_def)

end
